theory Spec2Isabelle
  imports Complex_Main
begin

unbundle bit_operations_syntax

section \<open>Strings as the JavaScript code uses them\<close>

text \<open>
  JavaScript strings are modelled as \<open>string\<close> (lists of 8-bit characters). The model is
  exact for ASCII text: \<open>toLowerCase\<close>, the regular-expression class \<open>\s\<close>, the flag
  \<open>i\<close> and \<open>trim\<close> are given on ASCII characters, and lengths count characters.
\<close>

definition lower_char :: "char \<Rightarrow> char" where
  "lower_char c =
     (if 65 \<le> (of_char c :: nat) \<and> (of_char c :: nat) \<le> 90
      then char_of ((of_char c :: nat) + 32) else c)"

definition toLowerCase :: "string \<Rightarrow> string" where
  "toLowerCase s = map lower_char s"

text \<open>The class \<open>\s\<close>: space, tab, line feed, vertical tab, form feed, carriage return.\<close>

definition is_ws :: "char \<Rightarrow> bool" where
  "is_ws c = ((of_char c :: nat) = 32 \<or> (9 \<le> (of_char c :: nat) \<and> (of_char c :: nat) \<le> 13))"

text \<open>\<open>s.startsWith(p)\<close> and \<open>s.includes(p)\<close>.\<close>

fun startsWith :: "string \<Rightarrow> string \<Rightarrow> bool" where
  "startsWith s [] = True"
| "startsWith [] (p # ps) = False"
| "startsWith (c # cs) (p # ps) = (c = p \<and> startsWith cs ps)"

fun str_includes :: "string \<Rightarrow> string \<Rightarrow> bool" where
  "str_includes [] p = (p = [])"
| "str_includes (c # cs) p = (startsWith (c # cs) p \<or> str_includes cs p)"

text \<open>
  \<open>s.split(/\s+/)\<close>: the pieces between maximal runs of white space. A run at the start
  or at the end of \<open>s\<close> leaves an empty piece there, and the empty string splits into one
  empty piece. The flag says whether the previous character was white space.
\<close>

fun split_ws_from :: "bool \<Rightarrow> string \<Rightarrow> string list" where
  "split_ws_from b [] = [[]]"
| "split_ws_from b (c # cs) =
     (if is_ws c then (if b then split_ws_from True cs else [] # split_ws_from True cs)
      else (case split_ws_from False cs of
              [] \<Rightarrow> [[c]]
            | w # ws \<Rightarrow> (c # w) # ws))"

definition split_ws :: "string \<Rightarrow> string list" where
  "split_ws s = split_ws_from False s"

section \<open>Image collector: relevance of a context to a keyword list\<close>

text \<open>
  \<open>calculateRelevance\<close> (services/images.js). The two counters of the \<open>forEach\<close> loop are
  the pair \<open>(score, matchedKeywords)\<close>; the quotient of two integers is a rational.
\<close>

definition relevance_step :: "string \<Rightarrow> nat \<times> nat \<Rightarrow> string \<Rightarrow> nat \<times> nat" where
  "relevance_step contextLower acc keyword =
     (case acc of (score, matchedKeywords) \<Rightarrow>
        if str_includes contextLower (toLowerCase keyword)
        then (if toLowerCase keyword \<in> set (split_ws contextLower)
              then (score + 2, matchedKeywords + 1)
              else (score + 1, matchedKeywords + 1))
        else (score, matchedKeywords))"

definition calculateRelevance :: "string \<Rightarrow> string list \<Rightarrow> rat" where
  "calculateRelevance context keywords =
     (if context = [] \<or> keywords = [] then 0
      else
        (case foldl (relevance_step (toLowerCase context)) (0, 0) keywords of
           (score, matchedKeywords) \<Rightarrow>
             if matchedKeywords > 0
             then of_nat score / of_nat (length keywords * 2)
             else 0))"

text \<open>
  The points the specification awards to one keyword: 2 for a whole-word match, 1 for a
  substring match, 0 when the keyword does not occur (case-insensitive).
\<close>

definition keyword_points :: "string \<Rightarrow> string \<Rightarrow> nat" where
  "keyword_points context keyword =
     (if str_includes (toLowerCase context) (toLowerCase keyword)
      then (if toLowerCase keyword \<in> set (split_ws (toLowerCase context)) then 2 else 1)
      else 0)"

section \<open>Image collector: scraping and matching\<close>

text \<open>Errors a JavaScript call can raise; every \<open>throw\<close> of the code is a value \<open>Inl e\<close>.\<close>

datatype js_error = TypeError | SyntaxError | ECACHEFULL | AbortError | Error string

record objective =
  obj_id :: string
  description :: string
  optional :: bool
  obj_type :: string

text \<open>
  The fields of a quest the enrichment reads: \<open>map_name\<close> is \<open>quest.map?.name\<close>, absent when
  the quest has no map.
\<close>

record quest =
  quest_id :: string
  name :: string
  map_name :: "string option"
  wikiLink :: "string option"
  objectives :: "objective list"

record api_image =
  api_url :: string
  api_description :: string
  api_objectiveIndex :: nat
  api_type :: string

record objective_images =
  objectiveIndex :: nat
  images :: "api_image list"

record wiki_image =
  url :: string
  alt :: string
  title :: string
  wiki_description :: string
  relevanceScore :: rat
  source :: string

record all_images =
  mapImage :: "string option"
  objectiveImages :: "objective_images list"
  itemImages :: "api_image list"
  wikiImages :: "wiki_image list"
  totalImages :: nat

text \<open>
  An \<open>img\<close> element as the page parser hands it over: its attributes (absent ones are
  \<open>None\<close>) and the text of the closest enclosing \<open>p, div, td, li, table\<close>
  (empty when there is none).
\<close>

record img_elem =
  attr_src :: "string option"
  attr_alt :: "string option"
  attr_title :: "string option"
  attr_width :: "string option"
  attr_height :: "string option"
  closest_text :: string

text \<open>
  \<open>parseInt\<close> without a radix: leading white space, an optional sign, an optional
  \<open>0x\<close> prefix, then the longest run of digits; \<open>None\<close> is \<open>NaN\<close>.
\<close>

definition digit_of :: "nat \<Rightarrow> char \<Rightarrow> nat option" where
  "digit_of radix c =
     (let n = (of_char c :: nat);
          v = (if 48 \<le> n \<and> n \<le> 57 then Some (n - 48)
               else if 97 \<le> n \<and> n \<le> 122 then Some (n - 87)
               else if 65 \<le> n \<and> n \<le> 90 then Some (n - 55)
               else None)
      in case v of None \<Rightarrow> None | Some d \<Rightarrow> if d < radix then Some d else None)"

fun digits_value :: "nat \<Rightarrow> nat option \<Rightarrow> string \<Rightarrow> nat option" where
  "digits_value radix acc [] = acc"
| "digits_value radix acc (c # cs) =
     (case digit_of radix c of
        None \<Rightarrow> acc
      | Some d \<Rightarrow> digits_value radix (Some ((case acc of None \<Rightarrow> 0 | Some a \<Rightarrow> a) * radix + d)) cs)"

definition parseInt :: "string \<Rightarrow> int option" where
  "parseInt s =
     (let t = dropWhile is_ws s;
          neg = startsWith t ''-'';
          u = (if startsWith t ''-'' \<or> startsWith t ''+'' then tl t else t);
          hex = (startsWith u ''0x'' \<or> startsWith u ''0X'');
          v = (if hex then digits_value 16 None (drop 2 u) else digits_value 10 None u)
      in case v of
           None \<Rightarrow> None
         | Some n \<Rightarrow> Some (if neg then - int n else int n))"

text \<open>\<open>parseInt(width) < 50\<close>: a comparison with \<open>NaN\<close> is false.\<close>

definition parsed_below :: "string \<Rightarrow> int \<Rightarrow> bool" where
  "parsed_below s bound = (case parseInt s of None \<Rightarrow> False | Some n \<Rightarrow> n < bound)"

text \<open>
  \<open>normalizeImageUrl\<close>. The parameter \<open>resolve url baseUrl\<close> stands for
  \<open>new URL(url, new URL(baseUrl).origin).href\<close> of the platform, \<open>None\<close> when a
  constructor throws; the result \<open>None\<close> is \<open>null\<close>.
\<close>

definition normalizeImageUrl ::
  "(string \<Rightarrow> string \<Rightarrow> string option) \<Rightarrow> string \<Rightarrow> string \<Rightarrow> string option" where
  "normalizeImageUrl resolve u baseUrl =
     (if u = [] then None
      else if startsWith u ''http://'' \<or> startsWith u ''https://'' then Some u
      else if startsWith u ''//'' then Some (''https:'' @ u)
      else resolve u baseUrl)"

text \<open>The keyword list of a quest: name, map name, and the words of more than 4 characters
  of every objective description; empty strings are filtered out.\<close>

definition quest_keywords :: "quest \<Rightarrow> string list" where
  "quest_keywords q =
     filter (\<lambda>k. k \<noteq> [])
       ([name q] @ (case map_name q of None \<Rightarrow> [] | Some m \<Rightarrow> [m]) @
        concat (map (\<lambda>obj. filter (\<lambda>w. length w > 4) (split_ws (description obj)))
                    (objectives q)))"

text \<open>
  The body of the \<open>each\<close> callback of \<open>scrapeWikiImages\<close> for one element: \<open>Inl\<close> when it
  throws (\<open>src.toLowerCase()\<close> on an element without \<open>src\<close>), \<open>Inr None\<close> when the element
  is skipped, \<open>Inr (Some img)\<close> when an image is pushed.
\<close>

text \<open>The context of an image: \<open>closest(...).text() || alt || title\<close>.\<close>

definition element_context :: "img_elem \<Rightarrow> string" where
  "element_context elem =
     (if closest_text elem \<noteq> [] then closest_text elem
      else (case attr_alt elem of
              Some a \<Rightarrow> if a \<noteq> [] then a
                        else (case attr_title elem of None \<Rightarrow> [] | Some t \<Rightarrow> t)
            | None \<Rightarrow> (case attr_title elem of None \<Rightarrow> [] | Some t \<Rightarrow> t)))"

definition scrape_element ::
  "(string \<Rightarrow> string \<Rightarrow> string option) \<Rightarrow> string \<Rightarrow> string list \<Rightarrow> img_elem
     \<Rightarrow> js_error + wiki_image option" where
  "scrape_element resolve link kws elem =
     (let alt0 = (case attr_alt elem of None \<Rightarrow> [] | Some a \<Rightarrow> a);
          title0 = (case attr_title elem of None \<Rightarrow> [] | Some t \<Rightarrow> t);
          small = (case (attr_width elem, attr_height elem) of
                     (Some w, Some h) \<Rightarrow>
                       w \<noteq> [] \<and> h \<noteq> [] \<and> (parsed_below w 50 \<or> parsed_below h 50)
                   | _ \<Rightarrow> False)
      in if small then Inr None
         else if str_includes (toLowerCase alt0) ''icon'' then Inr None
         else (case attr_src elem of
                 None \<Rightarrow> Inl TypeError
               | Some src \<Rightarrow>
                   if str_includes (toLowerCase src) ''/icon'' \<or>
                      str_includes (toLowerCase src) ''_icon''
                   then Inr None
                   else
                     (let ctx = element_context elem;
                          score = calculateRelevance ctx kws;
                          isContentImage = (src \<noteq> [] \<and> \<not> str_includes src ''advertisements''
                                            \<and> \<not> str_includes src ''/thumb/'')
                      in if (score > 1 / 10 \<or> isContentImage) \<and> src \<noteq> []
                         then (case normalizeImageUrl resolve src link of
                                 None \<Rightarrow> Inr None
                               | Some normalizedUrl \<Rightarrow>
                                   if normalizedUrl \<noteq> [] \<and>
                                      \<not> str_includes normalizedUrl ''data:image''
                                   then Inr (Some \<lparr> url = normalizedUrl, alt = alt0,
                                                     title = title0,
                                                     wiki_description = take 100 ctx,
                                                     relevanceScore =
                                                       (if score = 0 then 1 / 10 else score),
                                                     source = ''wiki'' \<rparr>)
                                   else Inr None)
                         else Inr None)))"

text \<open>The \<open>each\<close> loop: the images pushed so far, or the first exception.\<close>

fun scrape_elements ::
  "(string \<Rightarrow> string \<Rightarrow> string option) \<Rightarrow> string \<Rightarrow> string list \<Rightarrow> wiki_image list
     \<Rightarrow> img_elem list \<Rightarrow> js_error + wiki_image list" where
  "scrape_elements resolve link kws acc [] = Inr acc"
| "scrape_elements resolve link kws acc (e # es) =
     (case scrape_element resolve link kws e of
        Inl err \<Rightarrow> Inl err
      | Inr None \<Rightarrow> scrape_elements resolve link kws acc es
      | Inr (Some img) \<Rightarrow> scrape_elements resolve link kws (acc @ [img]) es)"

text \<open>What fetching and parsing the wiki page gives: a thrown error (timeout, network),
  a response that is not \<open>ok\<close>, or the \<open>img\<close> elements of the document in order.\<close>

datatype page = FetchThrows js_error | NotOk | Document "img_elem list"

text \<open>
  \<open>scrapeWikiImages\<close>: a stable sort by descending score, then the first 10. Every
  failure gives the empty list.
\<close>

definition scrapeWikiImages ::
  "(string \<Rightarrow> string \<Rightarrow> string option) \<Rightarrow> (string \<Rightarrow> page) \<Rightarrow> string option \<Rightarrow> quest
     \<Rightarrow> wiki_image list" where
  "scrapeWikiImages resolve fetch link q =
     (case link of
        None \<Rightarrow> []
      | Some l \<Rightarrow>
          if l = [] then []
          else (case fetch l of
                  FetchThrows err \<Rightarrow> []
                | NotOk \<Rightarrow> []
                | Document elems \<Rightarrow>
                    (case scrape_elements resolve l (quest_keywords q) [] elems of
                       Inl err \<Rightarrow> []
                     | Inr imgs \<Rightarrow> take 10 (sort_key (\<lambda>i. - relevanceScore i) imgs))))"

text \<open>
  \<open>findImageForObjective\<close>: \<open>find\<close> returns the first element that satisfies the test.
\<close>

definition objective_keywords :: "objective \<Rightarrow> string list" where
  "objective_keywords obj = filter (\<lambda>w. length w > 4) (split_ws (description obj))"

definition wiki_matches :: "objective \<Rightarrow> wiki_image \<Rightarrow> bool" where
  "wiki_matches obj img =
     (calculateRelevance (wiki_description img @ '' '' @ alt img) (objective_keywords obj) > 1 / 2)"

definition findImageForObjective :: "objective \<Rightarrow> nat \<Rightarrow> all_images \<Rightarrow> string option" where
  "findImageForObjective obj idx allImages =
     (let objectiveImageData = find (\<lambda>e. objectiveIndex e = idx) (objectiveImages allImages);
          apiList = (case objectiveImageData of None \<Rightarrow> [] | Some e \<Rightarrow> images e)
      in if apiList \<noteq> []
         then (case find (\<lambda>img. api_type img = ''image'') apiList of
                 Some fullImage \<Rightarrow> Some (api_url fullImage)
               | None \<Rightarrow> Some (api_url (hd apiList)))
         else if wikiImages allImages \<noteq> []
         then (case find (wiki_matches obj) (wikiImages allImages) of
                 Some matchedImage \<Rightarrow> Some (url matchedImage)
               | None \<Rightarrow> Some (url (hd (wikiImages allImages))))
         else None)"

text \<open>The structural images of an objective index: those of the first entry with that index.\<close>

definition structural_images :: "nat \<Rightarrow> all_images \<Rightarrow> api_image list" where
  "structural_images idx allImages =
     (case find (\<lambda>e. objectiveIndex e = idx) (objectiveImages allImages) of
        None \<Rightarrow> [] | Some e \<Rightarrow> images e)"

section \<open>Content cache: the cache key\<close>

text \<open>
  \<open>JSON.stringify\<close> of the objective list. The quest query asks for the fields
  \<open>id\<close>, \<open>description\<close>, \<open>optional\<close> and \<open>type\<close> of an objective, in this order, so
  each objective is serialised as an object with these four members. A string is quoted
  with the escapes of JSON: the quote, the backslash, the short escapes of the control
  characters 8, 9, 10, 12 and 13, and \<open>\u00XX\<close> for the other characters below 32.
\<close>

definition hex_digit :: "int \<Rightarrow> char" where
  "hex_digit n = (if n < 10 then char_of (48 + n) else char_of (87 + n))"

definition hex_byte :: "int \<Rightarrow> string" where
  "hex_byte b = [hex_digit (b div 16), hex_digit (b mod 16)]"

definition json_escape :: "char \<Rightarrow> string" where
  "json_escape c =
     (let n = (of_char c :: int)
      in if n = 34 then [CHR 0x5C, CHR 0x22]
         else if n = 92 then [CHR 0x5C, CHR 0x5C]
         else if n = 8 then [CHR 0x5C, CHR ''b'']
         else if n = 12 then [CHR 0x5C, CHR ''f'']
         else if n = 10 then [CHR 0x5C, CHR ''n'']
         else if n = 13 then [CHR 0x5C, CHR ''r'']
         else if n = 9 then [CHR 0x5C, CHR ''t'']
         else if n < 32 then [CHR 0x5C, CHR ''u'', CHR ''0'', CHR ''0''] @ hex_byte n
         else [c])"

definition json_quote :: "string \<Rightarrow> string" where
  "json_quote s = [CHR 0x22] @ concat (map json_escape s) @ [CHR 0x22]"

definition objective_json :: "objective \<Rightarrow> string" where
  "objective_json obj =
     ''{'' @ json_quote ''id'' @ '':'' @ json_quote (obj_id obj) @ '','' @
     json_quote ''description'' @ '':'' @ json_quote (description obj) @ '','' @
     json_quote ''optional'' @ '':'' @ (if optional obj then ''true'' else ''false'') @ '','' @
     json_quote ''type'' @ '':'' @ json_quote (obj_type obj) @ ''}''"

fun join_comma :: "string list \<Rightarrow> string" where
  "join_comma [] = []"
| "join_comma [s] = s"
| "join_comma (s # t # ts) = s @ '','' @ join_comma (t # ts)"

definition JSON_stringify :: "objective list \<Rightarrow> string" where
  "JSON_stringify objs = ''['' @ join_comma (map objective_json objs) @ '']''"

text \<open>
  The MD5 digest of \<open>crypto.createHash('md5')\<close> (RFC 1321). A 32-bit word is an \<open>int\<close>
  in \<open>[0, 2^32)\<close> with the wrap-around written out; the message is the list of its
  bytes.
\<close>

definition md5_K :: "int list" where
  "md5_K = [
    0xd76aa478, 0xe8c7b756, 0x242070db, 0xc1bdceee, 0xf57c0faf, 0x4787c62a, 0xa8304613, 0xfd469501,
    0x698098d8, 0x8b44f7af, 0xffff5bb1, 0x895cd7be, 0x6b901122, 0xfd987193, 0xa679438e, 0x49b40821,
    0xf61e2562, 0xc040b340, 0x265e5a51, 0xe9b6c7aa, 0xd62f105d, 0x02441453, 0xd8a1e681, 0xe7d3fbc8,
    0x21e1cde6, 0xc33707d6, 0xf4d50d87, 0x455a14ed, 0xa9e3e905, 0xfcefa3f8, 0x676f02d9, 0x8d2a4c8a,
    0xfffa3942, 0x8771f681, 0x6d9d6122, 0xfde5380c, 0xa4beea44, 0x4bdecfa9, 0xf6bb4b60, 0xbebfbc70,
    0x289b7ec6, 0xeaa127fa, 0xd4ef3085, 0x04881d05, 0xd9d4d039, 0xe6db99e5, 0x1fa27cf8, 0xc4ac5665,
    0xf4292244, 0x432aff97, 0xab9423a7, 0xfc93a039, 0x655b59c3, 0x8f0ccc92, 0xffeff47d, 0x85845dd1,
    0x6fa87e4f, 0xfe2ce6e0, 0xa3014314, 0x4e0811a1, 0xf7537e82, 0xbd3af235, 0x2ad7d2bb, 0xeb86d391]"

definition md5_S :: "nat list" where
  "md5_S = [7, 12, 17, 22, 7, 12, 17, 22, 7, 12, 17, 22, 7, 12, 17, 22,
            5, 9, 14, 20, 5, 9, 14, 20, 5, 9, 14, 20, 5, 9, 14, 20,
            4, 11, 16, 23, 4, 11, 16, 23, 4, 11, 16, 23, 4, 11, 16, 23,
            6, 10, 15, 21, 6, 10, 15, 21, 6, 10, 15, 21, 6, 10, 15, 21]"

definition add32 :: "int \<Rightarrow> int \<Rightarrow> int" where
  "add32 x y = (x + y) mod 4294967296"

definition not32 :: "int \<Rightarrow> int" where
  "not32 x = 4294967295 - x"

definition rotl32 :: "nat \<Rightarrow> int \<Rightarrow> int" where
  "rotl32 n x = ((x * 2 ^ n) mod 4294967296) OR (x div 2 ^ (32 - n))"

definition md5_f :: "nat \<Rightarrow> int \<Rightarrow> int \<Rightarrow> int \<Rightarrow> int" where
  "md5_f i B C D =
     (if i < 16 then (B AND C) OR (not32 B AND D)
      else if i < 32 then (D AND B) OR (not32 D AND C)
      else if i < 48 then B XOR C XOR D
      else C XOR (B OR not32 D))"

definition md5_g :: "nat \<Rightarrow> nat" where
  "md5_g i =
     (if i < 16 then i
      else if i < 32 then (5 * i + 1) mod 16
      else if i < 48 then (3 * i + 5) mod 16
      else (7 * i) mod 16)"

fun md5_round ::
  "int list \<Rightarrow> int \<times> int \<times> int \<times> int \<Rightarrow> nat \<Rightarrow> int \<times> int \<times> int \<times> int" where
  "md5_round M (A, B, C, D) i =
     (D,
      add32 B (rotl32 (md5_S ! i)
                 (add32 (add32 (add32 (md5_f i B C D) A) (md5_K ! i)) (M ! md5_g i))),
      B, C)"

fun add_state ::
  "int \<times> int \<times> int \<times> int \<Rightarrow> int \<times> int \<times> int \<times> int \<Rightarrow> int \<times> int \<times> int \<times> int" where
  "add_state (a0, b0, c0, d0) (A, B, C, D) = (add32 a0 A, add32 b0 B, add32 c0 C, add32 d0 D)"

definition md5_block :: "int \<times> int \<times> int \<times> int \<Rightarrow> int list \<Rightarrow> int \<times> int \<times> int \<times> int" where
  "md5_block st M = add_state st (foldl (md5_round M) st [0..<64])"

fun le_words :: "int list \<Rightarrow> int list" where
  "le_words (b0 # b1 # b2 # b3 # bs) =
     (b0 + 256 * b1 + 65536 * b2 + 16777216 * b3) # le_words bs"
| "le_words _ = []"

fun chunks64 :: "nat \<Rightarrow> int list \<Rightarrow> int list list" where
  "chunks64 0 bs = []"
| "chunks64 (Suc n) bs = take 64 bs # chunks64 n (drop 64 bs)"

text \<open>Padding: the byte 128, zeros up to 56 modulo 64, then the bit length in 8 bytes,
  least significant first.\<close>

definition md5_pad :: "int list \<Rightarrow> int list" where
  "md5_pad bs =
     (let n = length bs;
          z = (119 - n mod 64) mod 64;
          bits = (8 * int n) mod 18446744073709551616
      in bs @ [128] @ replicate z 0 @
         map (\<lambda>k. (bits div k) mod 256)
           [1, 256, 65536, 16777216, 4294967296, 1099511627776, 281474976710656,
            72057594037927936])"

definition md5_blocks :: "int list \<Rightarrow> int list list" where
  "md5_blocks bs = map le_words (chunks64 (length (md5_pad bs) div 64) (md5_pad bs))"

definition md5_init :: "int \<times> int \<times> int \<times> int" where
  "md5_init = (0x67452301, 0xefcdab89, 0x98badcfe, 0x10325476)"

definition word_hex :: "int \<Rightarrow> string" where
  "word_hex w = concat (map (\<lambda>k. hex_byte ((w div k) mod 256)) [1, 256, 65536, 16777216])"

fun state_hex :: "int \<times> int \<times> int \<times> int \<Rightarrow> string" where
  "state_hex (a, b, c, d) = word_hex a @ word_hex b @ word_hex c @ word_hex d"

definition md5_hex :: "string \<Rightarrow> string" where
  "md5_hex s = state_hex (foldl md5_block md5_init (md5_blocks (map of_char s)))"

text \<open>\<open>generateCacheKey\<close>: the first 8 hexadecimal digits of the digest.\<close>

definition generateCacheKey :: "string \<Rightarrow> objective list \<Rightarrow> string" where
  "generateCacheKey questId objs =
     ''quest:'' @ questId @ '':'' @ take 8 (md5_hex (JSON_stringify objs))"

section \<open>Guide generator: segmenting the model's response\<close>

record guide =
  overview :: string
  guide_objectives :: "string list"
  tips :: string
  raw :: string

text \<open>\<open>try { body } catch (error) { handler }\<close> on results with errors as values.\<close>

definition try_catch :: "js_error + 'a \<Rightarrow> (js_error \<Rightarrow> js_error + 'a) \<Rightarrow> js_error + 'a" where
  "try_catch body handler = (case body of Inl e \<Rightarrow> handler e | Inr x \<Rightarrow> Inr x)"

definition trim :: "string \<Rightarrow> string" where
  "trim s = rev (dropWhile is_ws (rev (dropWhile is_ws s)))"

text \<open>A literal of a pattern with the flag \<open>i\<close>, matched at the start of the text.\<close>

fun ci_startsWith :: "string \<Rightarrow> string \<Rightarrow> bool" where
  "ci_startsWith s [] = True"
| "ci_startsWith [] (p # ps) = False"
| "ci_startsWith (c # cs) (p # ps) = (lower_char c = lower_char p \<and> ci_startsWith cs ps)"

text \<open>The decimal digits of a template substitution \<open>${n}\<close>.\<close>

fun string_of_nat :: "nat \<Rightarrow> string" where
  "string_of_nat n =
     (if n < 10 then [char_of (48 + n)]
      else string_of_nat (n div 10) @ [char_of (48 + n mod 10)])"

text \<open>
  \<open>text.match(pattern)\<close> without the flag \<open>g\<close>: the pattern is tried at every position
  from the left, the end of the text included; \<open>m\<close> says what it matches at the
  start of a suffix.
\<close>

fun regex_search :: "(string \<Rightarrow> 'a option) \<Rightarrow> string \<Rightarrow> 'a option" where
  "regex_search m [] = m []"
| "regex_search m (c # cs) =
     (case m (c # cs) of Some r \<Rightarrow> Some r | None \<Rightarrow> regex_search m cs)"

text \<open>
  The lazy group \<open>([\s\S]*?)\<close> followed by a lookahead: the shortest prefix after which
  the lookahead holds, \<open>None\<close> when it holds nowhere.
\<close>

fun lazy_until :: "(string \<Rightarrow> bool) \<Rightarrow> string \<Rightarrow> string option" where
  "lazy_until la [] = (if la [] then Some [] else None)"
| "lazy_until la (c # cs) =
     (if la (c # cs) then Some []
      else (case lazy_until la cs of None \<Rightarrow> None | Some cap \<Rightarrow> Some (c # cap)))"

fun first_some :: "('a \<Rightarrow> 'b option) \<Rightarrow> 'a list \<Rightarrow> 'b option" where
  "first_some f [] = None"
| "first_some f (x # xs) = (case f x of Some r \<Rightarrow> Some r | None \<Rightarrow> first_some f xs)"

text \<open>
  \<open>[:\s]*\n\<close> after a heading: the greedy run of colons and white space must be followed
  by a line feed, so the line feed is one of the run. \<open>newline_cuts\<close> lists what follows
  each line feed of the run, from the left; the greedy match tries them from the right.
\<close>

fun newline_cuts :: "string \<Rightarrow> string list" where
  "newline_cuts [] = []"
| "newline_cuts (c # cs) =
     (if c = CHR 0x0A then cs # newline_cuts cs
      else if c = CHR '':'' \<or> is_ws c then newline_cuts cs
      else [])"

text \<open>
  A pattern \<open>(?:h1|h2)[:\s]*\n([\s\S]*?)(?=lookahead)\<close> at the start of a suffix: the
  captured group.
\<close>

definition section_at :: "string list \<Rightarrow> (string \<Rightarrow> bool) \<Rightarrow> string \<Rightarrow> string option" where
  "section_at heads la s =
     first_some
       (\<lambda>h. if ci_startsWith s h
            then first_some (lazy_until la) (rev (newline_cuts (drop (length h) s)))
            else None)
       heads"

definition overview_lookahead :: "string \<Rightarrow> bool" where
  "overview_lookahead r =
     (ci_startsWith r ''\<newline>##'' \<or> ci_startsWith r ''\<newline>**Step-by-Step'' \<or>
      ci_startsWith r ''\<newline>Objective'')"

definition guide_lookahead :: "string \<Rightarrow> bool" where
  "guide_lookahead r =
     (ci_startsWith r ''\<newline>##'' \<or> ci_startsWith r ''Priority Tips'' \<or> r = [])"

definition overviewMatch :: "string \<Rightarrow> string option" where
  "overviewMatch text =
     regex_search (section_at [''Brief Overview'', ''Overview''] overview_lookahead) text"

definition tipsMatch :: "string \<Rightarrow> string option" where
  "tipsMatch text = regex_search (section_at [''Priority Tips'', ''Tips''] (\<lambda>r. r = [])) text"

definition guideSectionMatch :: "string \<Rightarrow> string option" where
  "guideSectionMatch text = regex_search (section_at [''Step-by-Step Guide''] guide_lookahead) text"

text \<open>
  A match is the pair of \<open>match[0]\<close> and \<open>match[1]\<close> (\<open>None\<close> when the pattern has no
  group or the group took no part).

  The heading pattern of objective number \<open>n\<close>:
  \<open>(?:Objective n|n\.)([\s\S]*?)(?=\n(?:Objective n+1|n+1\.)|\n##|Priority Tips|$)\<close>.
\<close>

type_synonym rx_match = "string \<times> string option"

definition objective_lookahead :: "nat \<Rightarrow> string \<Rightarrow> bool" where
  "objective_lookahead n r =
     (ci_startsWith r (''\<newline>Objective '' @ string_of_nat (n + 1)) \<or>
      ci_startsWith r (''\<newline>'' @ string_of_nat (n + 1) @ ''.'') \<or>
      ci_startsWith r ''\<newline>##'' \<or> ci_startsWith r ''Priority Tips'' \<or> r = [])"

definition objective_pattern_at :: "nat \<Rightarrow> string \<Rightarrow> rx_match option" where
  "objective_pattern_at n s =
     first_some
       (\<lambda>h. if ci_startsWith s h
            then (case lazy_until (objective_lookahead n) (drop (length h) s) of
                    None \<Rightarrow> None
                  | Some cap \<Rightarrow> Some (take (length h) s @ cap, Some cap))
            else None)
       [''Objective '' @ string_of_nat n, string_of_nat n @ ''.'']"

text \<open>
  The second pattern is built from the first 30 characters of the objective's description,
  which the \<open>RegExp\<close> constructor reads as a pattern. When these characters are all
  literal, the pattern \<open>prefix[\s\S]{0,500}\<close> matches the prefix (case-insensitive) and up
  to 500 characters after it. Otherwise the platform's engine decides: \<open>rx_compiles\<close>
  says whether the constructor accepts the pattern (it throws a \<open>SyntaxError\<close> when not),
  \<open>rx_exec\<close> what the compiled pattern matches in a text.
\<close>

definition regex_special :: "char \<Rightarrow> bool" where
  "regex_special c = (c \<in> set (CHR 0x5C # ''^$.*+?()[]{}|''))"

record regex_engine =
  rx_compiles :: "string \<Rightarrow> bool"
  rx_exec :: "string \<Rightarrow> string \<Rightarrow> rx_match option"

datatype rx = Literal string | Opaque string

definition description_pattern :: "regex_engine \<Rightarrow> objective \<Rightarrow> js_error + rx" where
  "description_pattern eng obj =
     (let p = take 30 (description obj)
      in if \<not> list_ex regex_special p then Inr (Literal p)
         else if rx_compiles eng p then Inr (Opaque p)
         else Inl SyntaxError)"

definition rx_match_text :: "regex_engine \<Rightarrow> rx \<Rightarrow> string \<Rightarrow> rx_match option" where
  "rx_match_text eng r text =
     (case r of
        Literal p \<Rightarrow>
          regex_search
            (\<lambda>s. if ci_startsWith s p then Some (take (length p + 500) s, None) else None) text
      | Opaque p \<Rightarrow> rx_exec eng p text)"

text \<open>\<open>match[1] ? match[1].trim() : match[0].trim()\<close>\<close>

definition match_text :: "rx_match \<Rightarrow> string" where
  "match_text m =
     (case snd m of
        Some g \<Rightarrow> if g \<noteq> [] then trim g else trim (fst m)
      | None \<Rightarrow> trim (fst m))"

text \<open>
  The body of the first \<open>forEach\<close> for one objective: both patterns are built first (this
  is where a \<open>SyntaxError\<close> is thrown), then the first pattern that matches gives the slot;
  the slot is empty when none matches.
\<close>

definition objective_slot :: "regex_engine \<Rightarrow> string \<Rightarrow> nat \<Rightarrow> objective \<Rightarrow> js_error + string" where
  "objective_slot eng text idx obj =
     (case description_pattern eng obj of
        Inl e \<Rightarrow> Inl e
      | Inr dp \<Rightarrow>
          Inr (case regex_search (objective_pattern_at (idx + 1)) text of
                 Some m \<Rightarrow> match_text m
               | None \<Rightarrow>
                   (case rx_match_text eng dp text of
                      Some m \<Rightarrow> match_text m
                    | None \<Rightarrow> [])))"

fun objective_slots ::
  "regex_engine \<Rightarrow> string \<Rightarrow> nat \<Rightarrow> objective list \<Rightarrow> js_error + string list" where
  "objective_slots eng text idx [] = Inr []"
| "objective_slots eng text idx (obj # objs) =
     (case objective_slot eng text idx obj of
        Inl e \<Rightarrow> Inl e
      | Inr s \<Rightarrow>
          (case objective_slots eng text (idx + 1) objs of
             Inl e \<Rightarrow> Inl e
           | Inr ss \<Rightarrow> Inr (s # ss)))"

text \<open>
  \<open>guideText.split(/\n\n+|\n(?=\d+\.)/)\<close>: a separator is a run of two or more line
  feeds, or one line feed followed by digits and a dot; \<open>cur\<close> is the piece being read.
\<close>

definition is_digit :: "char \<Rightarrow> bool" where
  "is_digit c = (48 \<le> (of_char c :: nat) \<and> (of_char c :: nat) \<le> 57)"

definition digits_dot :: "string \<Rightarrow> bool" where
  "digits_dot s = (takeWhile is_digit s \<noteq> [] \<and> startsWith (dropWhile is_digit s) ''.'')"

function split_guide_from :: "string \<Rightarrow> string \<Rightarrow> string list" where
  "split_guide_from cur [] = [cur]"
| "split_guide_from cur (c # cs) =
     (if c = CHR 0x0A \<and> startsWith cs ''\<newline>''
      then cur # split_guide_from [] (dropWhile (\<lambda>x. x = CHR 0x0A) cs)
      else if c = CHR 0x0A \<and> digits_dot cs
      then cur # split_guide_from [] cs
      else split_guide_from (cur @ [c]) cs)"
  by pat_completeness auto
termination
  by (relation "measure (\<lambda>(cur, s). length s)")
     (auto simp: length_dropWhile_le le_imp_less_Suc)

definition split_guide :: "string \<Rightarrow> string list" where
  "split_guide s = split_guide_from [] s"

text \<open>\<open>parts[idx] || guideText\<close>\<close>

definition part_or_guide :: "string list \<Rightarrow> string \<Rightarrow> nat \<Rightarrow> string" where
  "part_or_guide parts guideText idx =
     (if idx < length parts \<and> parts ! idx \<noteq> [] then parts ! idx else guideText)"

text \<open>
  \<open>parseLLMResponse\<close>. The overview and the tips are set before the objectives are
  visited, so they are kept when the \<open>catch\<close> block fills every slot with the text.
\<close>

definition parseLLMResponse :: "regex_engine \<Rightarrow> string \<Rightarrow> quest \<Rightarrow> guide" where
  "parseLLMResponse eng text q =
     (let ov = (case overviewMatch text of Some c \<Rightarrow> trim c | None \<Rightarrow> []);
          tp = (case tipsMatch text of Some c \<Rightarrow> trim c | None \<Rightarrow> []);
          n = length (objectives q)
      in case objective_slots eng text 0 (objectives q) of
           Inl e \<Rightarrow>
             \<lparr> overview = ov, guide_objectives = map (\<lambda>obj. text) (objectives q),
               tips = tp, raw = text \<rparr>
         | Inr slots \<Rightarrow>
             if list_all (\<lambda>s. s = []) slots
             then (case guideSectionMatch text of
                     Some c \<Rightarrow>
                       \<lparr> overview = ov,
                         guide_objectives =
                           map (part_or_guide (split_guide (trim c)) (trim c)) [0..<n],
                         tips = tp, raw = text \<rparr>
                   | None \<Rightarrow>
                       \<lparr> overview = ov, guide_objectives = slots, tips = tp, raw = text \<rparr>)
             else \<lparr> overview = ov, guide_objectives = slots, tips = tp, raw = text \<rparr>)"

section \<open>Guide generator: calling the model\<close>

text \<open>
  One call of \<open>client.models.generateContent\<close> either throws (with a message) or returns
  a response, whose \<open>text\<close> may be absent. The trace records the calls of the model, by
  attempt number, and the delays in milliseconds between them.
\<close>

datatype model_outcome = Throws string | Returns "string option"

datatype event = GenerateGuide | CollectImages | ModelCall nat | Delay int

definition maxAttempts :: nat where
  "maxAttempts = 2"

function attempt_loop ::
  "(nat \<Rightarrow> model_outcome) \<Rightarrow> string option option \<Rightarrow> nat \<Rightarrow> event list
     \<Rightarrow> string option option \<times> event list" where
  "attempt_loop model result attempts trace =
     (if result = None \<and> attempts < maxAttempts
      then (case model (attempts + 1) of
              Returns r \<Rightarrow>
                attempt_loop model (Some r) (attempts + 1) (trace @ [ModelCall (attempts + 1)])
            | Throws msg \<Rightarrow>
                attempt_loop model None (attempts + 1)
                  (trace @ [ModelCall (attempts + 1)] @
                   (if attempts + 1 < maxAttempts then [Delay 1000] else [])))
      else (result, trace))"
  by pat_completeness auto
termination
  by (relation "measure (\<lambda>(model, result, attempts, trace). maxAttempts - attempts)") auto

declare attempt_loop.simps [simp del]

text \<open>
  The environment of the generator: the API key of the process, whether the client's
  constructor throws, the outcome of the model at each attempt, and the regular-expression
  engine. The prompt is a string built from the quest and handed to every attempt; the
  outcomes are given per attempt, so its text does not enter the model.
\<close>

record gemini_env =
  apiKey :: "string option"
  constructor_throws :: bool
  model :: "nat \<Rightarrow> model_outcome"
  engine :: regex_engine

definition initializeGemini :: "gemini_env \<Rightarrow> bool" where
  "initializeGemini env =
     (case apiKey env of
        None \<Rightarrow> False
      | Some k \<Rightarrow> if k = [] then False else \<not> constructor_throws env)"

text \<open>The body of the \<open>try\<close> block of \<open>generateQuestGuide\<close>, with the trace of the loop.\<close>

definition generate_body :: "gemini_env \<Rightarrow> quest \<Rightarrow> (js_error + guide) \<times> event list" where
  "generate_body env q =
     (case attempt_loop (model env) None 0 [] of
        (None, trace) \<Rightarrow> (Inl (Error ''Failed after maximum retry attempts''), trace)
      | (Some r, trace) \<Rightarrow>
          (Inr (parseLLMResponse (engine env) (case r of None \<Rightarrow> [] | Some t \<Rightarrow> t) q), trace))"

text \<open>
  \<open>generateQuestGuide\<close>: the result (\<open>None\<close> is \<open>null\<close>), whether the client is
  initialised afterwards, and the trace. \<open>client\<close> says whether the client was
  initialised before.
\<close>

definition generateQuestGuide ::
  "gemini_env \<Rightarrow> bool \<Rightarrow> quest \<Rightarrow> (js_error + guide option) \<times> bool \<times> event list" where
  "generateQuestGuide env client q =
     (if \<not> client \<and> \<not> initializeGemini env then (Inr None, False, [])
      else (case generate_body env q of
              (body, trace) \<Rightarrow>
                (try_catch (case body of Inl e \<Rightarrow> Inl e | Inr g \<Rightarrow> Inr (Some g))
                   (\<lambda>error. Inr None),
                 True, trace)))"

section \<open>Content cache: the store\<close>

record enrichment =
  llmGuide :: guide
  images_of :: all_images

text \<open>
  Modelled from the spec: the key/value store behind the cache (the package node-cache,
  which is not part of the sources), a capacity- and time-bounded store created with a
  default time to live of 604800 seconds and at most 500 keys. An entry holds its value
  and the time in milliseconds at which it expires; times and counters are the numbers of
  JavaScript, here integers. A write to a store that already holds
  the maximal number of keys is rejected by throwing; a read of an entry whose time has
  passed removes it and misses. The counters are those of \<open>getStats\<close>.
\<close>

record cache_entry =
  entry_value :: enrichment
  expires :: int

record node_cache =
  entries :: "string \<Rightarrow> cache_entry option"
  keys :: int
  hits :: int
  misses :: int

definition maxKeys :: int where
  "maxKeys = 500"

definition defaultTTL :: int where
  "defaultTTL = 604800"

definition nc_get :: "int \<Rightarrow> node_cache \<Rightarrow> string \<Rightarrow> enrichment option \<times> node_cache" where
  "nc_get now c k =
     (case entries c k of
        None \<Rightarrow> (None, c\<lparr> misses := misses c + 1 \<rparr>)
      | Some e \<Rightarrow>
          if expires e < now
          then (None, c\<lparr> entries := (entries c)(k := None), keys := keys c - 1,
                          misses := misses c + 1 \<rparr>)
          else (Some (entry_value e), c\<lparr> hits := hits c + 1 \<rparr>))"

definition nc_set ::
  "int \<Rightarrow> node_cache \<Rightarrow> string \<Rightarrow> enrichment \<Rightarrow> int \<Rightarrow> js_error + bool \<times> node_cache" where
  "nc_set now c k v ttl =
     (if keys c \<ge> maxKeys then Inl ECACHEFULL
      else Inr (True,
                c\<lparr> entries := (entries c)(k \<mapsto> \<lparr> entry_value = v, expires = now + ttl * 1000 \<rparr>),
                   keys := (if entries c k = None then keys c + 1 else keys c) \<rparr>))"

text \<open>
  \<open>getCachedQuestGuide\<close> and \<open>setCachedQuestGuide\<close> (services/cache.js): the result and the
  store afterwards. A cached value is an object, so it is truthy. The optional \<open>ttl\<close> is
  \<open>None\<close> when the caller leaves it out; \<open>ttl || defaultTTL\<close> replaces an absent
  or zero \<open>ttl\<close>.
\<close>

definition getCachedQuestGuide ::
  "int \<Rightarrow> node_cache \<Rightarrow> string \<Rightarrow> objective list \<Rightarrow> enrichment option \<times> node_cache" where
  "getCachedQuestGuide now c questId objs = nc_get now c (generateCacheKey questId objs)"

definition effective_ttl :: "int option \<Rightarrow> int" where
  "effective_ttl ttl = (case ttl of None \<Rightarrow> defaultTTL | Some t \<Rightarrow> if t = 0 then defaultTTL else t)"

definition setCachedQuestGuide ::
  "int \<Rightarrow> node_cache \<Rightarrow> string \<Rightarrow> objective list \<Rightarrow> enrichment \<Rightarrow> int option
     \<Rightarrow> js_error + bool \<times> node_cache" where
  "setCachedQuestGuide now c questId objs d ttl =
     try_catch (nc_set now c (generateCacheKey questId objs) d (effective_ttl ttl))
       (\<lambda>error. Inr (False, c))"

section \<open>Enrichment orchestrator\<close>

text \<open>
  \<open>getQuestImages\<close>. The quest query asks for no image link of the map and for no item
  of an objective, so the structural extraction of \<open>extractAPIImages\<close> finds nothing in
  a quest of the data source; the scraped images come from the wiki page.
\<close>

definition extractAPIImages :: "quest \<Rightarrow> all_images" where
  "extractAPIImages q =
     \<lparr> mapImage = None, objectiveImages = [], itemImages = [], wikiImages = [],
       totalImages = 0 \<rparr>"

definition getQuestImages ::
  "(string \<Rightarrow> string \<Rightarrow> string option) \<Rightarrow> (string \<Rightarrow> page) \<Rightarrow> quest \<Rightarrow> all_images" where
  "getQuestImages resolve fetch q =
     (let apiImages = extractAPIImages q;
          wiki = (case wikiLink q of
                    None \<Rightarrow> []
                  | Some l \<Rightarrow> if l = [] then [] else scrapeWikiImages resolve fetch (wikiLink q) q)
      in apiImages\<lparr> wikiImages := wiki,
                    totalImages :=
                      (case mapImage apiImages of None \<Rightarrow> 0 | Some m \<Rightarrow> 1) +
                      sum_list (map (\<lambda>obj. length (images obj)) (objectiveImages apiImages)) +
                      length wiki \<rparr>)"

text \<open>
  The world of one request: the time, the environment of the generator, the page fetcher
  and the URL resolver. The state that lasts between requests: whether the model client
  is initialised, and the cache.
\<close>

record world =
  w_now :: int
  w_gemini :: gemini_env
  w_fetch :: "string \<Rightarrow> page"
  w_resolve :: "string \<Rightarrow> string \<Rightarrow> string option"

record bot_state =
  client_ready :: bool
  questCache :: node_cache

text \<open>
  What the handler renders: the enhanced response from the enrichment data, the regular
  quest embed (the baseline view), or the regular embed with the notice of the \<open>catch\<close>
  block.
\<close>

datatype outcome = Enhanced enrichment | Regular | RegularWithNotice

text \<open>
  The enrichment flow of \<open>handleEnhancedQuestCommand\<close>, from the cache lookup to the
  choice of the response, for the quest found. The trace records the calls of the guide
  generator and of the image collector, and inside the generator those of the model.
\<close>

definition enrich :: "world \<Rightarrow> bot_state \<Rightarrow> quest \<Rightarrow> outcome \<times> bot_state \<times> event list" where
  "enrich w st q =
     (case getCachedQuestGuide (w_now w) (questCache st) (quest_id q) (objectives q) of
        (Some cachedData, c1) \<Rightarrow> (Enhanced cachedData, st\<lparr> questCache := c1 \<rparr>, [])
      | (None, c1) \<Rightarrow>
          (case generateQuestGuide (w_gemini w) (client_ready st) q of
             (res, client1, trace) \<Rightarrow>
               let imgs = getQuestImages (w_resolve w) (w_fetch w) q;
                   events = [GenerateGuide] @ trace @ [CollectImages]
               in (case res of
                     Inl e \<Rightarrow>
                       (RegularWithNotice, \<lparr> client_ready = client1, questCache = c1 \<rparr>, events)
                   | Inr None \<Rightarrow> (Regular, \<lparr> client_ready = client1, questCache = c1 \<rparr>, events)
                   | Inr (Some g) \<Rightarrow>
                       (case setCachedQuestGuide (w_now w) c1 (quest_id q) (objectives q)
                               \<lparr> llmGuide = g, images_of = imgs \<rparr> None of
                          Inl e \<Rightarrow>
                            (RegularWithNotice, \<lparr> client_ready = client1, questCache = c1 \<rparr>,
                             events)
                        | Inr (ok, c2) \<Rightarrow>
                            (Enhanced \<lparr> llmGuide = g, images_of = imgs \<rparr>,
                             \<lparr> client_ready = client1, questCache = c2 \<rparr>, events)))))"

text \<open>How often an event occurs in a trace.\<close>

definition count_event :: "event \<Rightarrow> event list \<Rightarrow> nat" where
  "count_event e trace = length (filter (\<lambda>x. x = e) trace)"

definition model_calls :: "event list \<Rightarrow> nat" where
  "model_calls trace = length (filter (\<lambda>x. case x of ModelCall n \<Rightarrow> True | _ \<Rightarrow> False) trace)"

section \<open>Example inputs\<close>

definition no_resolve :: "string \<Rightarrow> string \<Rightarrow> string option" where
  "no_resolve u b = None"

definition shortage_quest :: quest where
  "shortage_quest =
     \<lparr> quest_id = ''5936d90786f7742b1420ba5b'', name = ''Shortage'', map_name = None,
       wikiLink = Some ''https://wiki.example/Shortage'',
       objectives =
         [\<lparr> obj_id = ''o1'',
             description = ''Locate hidden medical supply crates inside warehouse'',
             optional = False, obj_type = ''visit'' \<rparr>] \<rparr>"

definition warehouse_elem :: img_elem where
  "warehouse_elem =
     \<lparr> attr_src = Some ''https://wiki.example/images/map.png'', attr_alt = Some ''Map'',
       attr_title = None, attr_width = Some ''300'', attr_height = Some ''200'',
       closest_text = ''Warehouses overview'' \<rparr>"

definition warehouse_page :: "string \<Rightarrow> page" where
  "warehouse_page l = Document [warehouse_elem]"

definition relay_objective :: objective where
  "relay_objective =
     \<lparr> obj_id = ''o1'', description = ''relay checkpoint'', optional = False,
       obj_type = ''visit'' \<rparr>"

definition tower_image :: wiki_image where
  "tower_image =
     \<lparr> url = ''https://wiki.example/tower.png'', alt = [], title = [],
       wiki_description = ''relay tower and checkpoint.'', relevanceScore = 1 / 5,
       source = ''wiki'' \<rparr>"

definition relay_image :: wiki_image where
  "relay_image =
     \<lparr> url = ''https://wiki.example/relay.png'', alt = [], title = [],
       wiki_description = ''relay checkpoint'', relevanceScore = 9 / 10,
       source = ''wiki'' \<rparr>"

definition relay_images :: all_images where
  "relay_images =
     \<lparr> mapImage = None, objectiveImages = [], itemImages = [], wikiImages = [tower_image, relay_image],
       totalImages = 2 \<rparr>"

definition icon_image :: api_image where
  "icon_image =
     \<lparr> api_url = ''https://assets.example/icon.png'', api_description = ''Signal jammer'',
       api_objectiveIndex = 0, api_type = ''icon'' \<rparr>"

definition icon_images :: all_images where
  "icon_images =
     \<lparr> mapImage = None,
       objectiveImages = [\<lparr> objectiveIndex = 0, images = [icon_image] \<rparr>],
       itemImages = [], wikiImages = [relay_image], totalImages = 2 \<rparr>"

definition scav_objective :: "string \<Rightarrow> objective" where
  "scav_objective d =
     \<lparr> obj_id = ''o1'', description = d, optional = False, obj_type = ''shoot'' \<rparr>"

definition no_engine :: regex_engine where
  "no_engine = \<lparr> rx_compiles = (\<lambda>p. False), rx_exec = (\<lambda>p t. None) \<rparr>"

definition plain_objective :: "string \<Rightarrow> objective" where
  "plain_objective d =
     \<lparr> obj_id = ''o'', description = d, optional = False, obj_type = ''visit'' \<rparr>"

definition three_quest :: quest where
  "three_quest =
     \<lparr> quest_id = ''q3'', name = ''Signal'', map_name = None, wikiLink = None,
       objectives = [plain_objective ''Locate the cache'', plain_objective ''Mark the truck'',
                     plain_objective ''Survive and extract''] \<rparr>"

definition empty_cache :: node_cache where
  "empty_cache = \<lparr> entries = (\<lambda>k. None), keys = 0, hits = 0, misses = 0 \<rparr>"

definition sample_guide :: guide where
  "sample_guide =
     \<lparr> overview = ''Find the cache.'', guide_objectives = [''Go north.''], tips = [],
       raw = ''Overview:\<newline>Find the cache.'' \<rparr>"

definition sample_enrichment :: enrichment where
  "sample_enrichment = \<lparr> llmGuide = sample_guide, images_of = relay_images \<rparr>"

text \<open>A store that holds 500 entries, under the keys \<open>000\<close> to \<open>499\<close>.\<close>

definition full_cache :: node_cache where
  "full_cache =
     \<lparr> entries = (\<lambda>k. case k of
                        [a, b, c] \<Rightarrow>
                          if a \<in> set ''01234'' \<and> is_digit b \<and> is_digit c
                          then Some \<lparr> entry_value = sample_enrichment, expires = 604800000 \<rparr>
                          else None
                      | _ \<Rightarrow> None),
       keys = 500, hits = 0, misses = 0 \<rparr>"

text \<open>A model that always throws, one that answers at once, and their worlds.\<close>

definition failing_env :: gemini_env where
  "failing_env =
     \<lparr> apiKey = Some ''key'', constructor_throws = False,
       model = (\<lambda>n. Throws ''503 Service Unavailable''), engine = no_engine \<rparr>"

definition answering_env :: gemini_env where
  "answering_env =
     \<lparr> apiKey = Some ''key'', constructor_throws = False,
       model = (\<lambda>n. Returns (Some ''Step-by-Step Guide:\<newline>alpha\<newline>\<newline>beta\<newline>\<newline>gamma'')),
       engine = no_engine \<rparr>"

definition no_page :: "string \<Rightarrow> page" where
  "no_page l = NotOk"

definition failing_world :: world where
  "failing_world =
     \<lparr> w_now = 1000, w_gemini = failing_env, w_fetch = no_page, w_resolve = no_resolve \<rparr>"

definition answering_world :: world where
  "answering_world =
     \<lparr> w_now = 1000, w_gemini = answering_env, w_fetch = no_page, w_resolve = no_resolve \<rparr>"

definition start_state :: bot_state where
  "start_state = \<lparr> client_ready = False, questCache = empty_cache \<rparr>"

text \<open>Responses without objective markers, with two and with three chunks, and one with
  markers for the first two objectives.\<close>

definition two_chunks :: string where
  "two_chunks = ''Step-by-Step Guide:\<newline>alpha\<newline>\<newline>beta''"

definition three_chunks :: string where
  "three_chunks = ''Step-by-Step Guide:\<newline>alpha\<newline>\<newline>beta\<newline>\<newline>gamma''"

definition marked_response :: string where
  "marked_response = ''Objective 1: go there\<newline>Objective 2: mark it''"

definition paren_quest :: quest where
  "paren_quest =
     \<lparr> quest_id = ''q1'', name = ''Delivery'', map_name = None, wikiLink = None,
       objectives = [plain_objective ''Hand over the item (found''] \<rparr>"

text \<open>Two scraped images as the collector delivers them, by descending score.\<close>

definition sorted_images :: all_images where
  "sorted_images =
     \<lparr> mapImage = None, objectiveImages = [], itemImages = [],
       wikiImages = [relay_image, tower_image], totalImages = 2 \<rparr>"

section \<open>Properties of the relevance score\<close>

lemma foldl_relevance_step:
  "foldl (relevance_step (toLowerCase ctx)) (s, m) kws =
     (s + sum_list (map (keyword_points ctx) kws),
      m + length (filter (\<lambda>k. str_includes (toLowerCase ctx) (toLowerCase k)) kws))"
  by (induction kws arbitrary: s m)
     (simp_all add: relevance_step_def keyword_points_def)

lemma keyword_points_le: "sum_list (map (keyword_points ctx) kws) \<le> 2 * length kws"
  by (induction kws) (simp_all add: keyword_points_def)

lemma keyword_points_zero_iff:
  "sum_list (map (keyword_points ctx) kws) = 0 \<longleftrightarrow>
   filter (\<lambda>k. str_includes (toLowerCase ctx) (toLowerCase k)) kws = []"
  by (induction kws) (simp_all add: keyword_points_def)

lemma keyword_points_empty_context:
  "[] \<notin> set kws \<Longrightarrow> sum_list (map (keyword_points []) kws) = 0"
  by (induction kws) (auto simp: keyword_points_def toLowerCase_def)

lemma calculateRelevance_score:
  assumes "kws \<noteq> []" and "ctx \<noteq> [] \<or> [] \<notin> set kws"
  shows "calculateRelevance ctx kws =
         of_nat (sum_list (map (keyword_points ctx) kws)) / of_nat (2 * length kws)"
proof (cases "ctx = []")
  case True
  with assms have "[] \<notin> set kws" by simp
  then show ?thesis using True
    by (simp add: calculateRelevance_def keyword_points_empty_context)
next
  case False
  show ?thesis
  proof (cases "sum_list (map (keyword_points ctx) kws) = 0")
    case True
    then show ?thesis using False assms(1) keyword_points_zero_iff [of ctx kws]
      by (simp add: calculateRelevance_def foldl_relevance_step)
  next
    case nz: False
    have "filter (\<lambda>k. str_includes (toLowerCase ctx) (toLowerCase k)) kws \<noteq> []"
    proof
      assume "filter (\<lambda>k. str_includes (toLowerCase ctx) (toLowerCase k)) kws = []"
      then have "sum_list (map (keyword_points ctx) kws) = 0"
        by (simp only: keyword_points_zero_iff)
      with nz show False by simp
    qed
    then show ?thesis using False assms(1)
      by (simp add: calculateRelevance_def foldl_relevance_step mult.commute)
  qed
qed

lemma calculateRelevance_range:
  "0 \<le> calculateRelevance ctx kws \<and> calculateRelevance ctx kws \<le> 1"
proof -
  have "(of_nat (sum_list (map (keyword_points ctx) kws)) :: rat) \<le> of_nat (length kws * 2)"
    using keyword_points_le [of ctx kws] by (metis mult.commute of_nat_le_iff)
  then show ?thesis
    by (auto simp: calculateRelevance_def foldl_relevance_step divide_le_eq_1 split: prod.splits)
qed

lemma calculateRelevance_no_match:
  assumes "\<forall>k \<in> set kws. \<not> str_includes (toLowerCase ctx) (toLowerCase k)"
  shows "calculateRelevance ctx kws = 0"
proof -
  from assms have "filter (\<lambda>k. str_includes (toLowerCase ctx) (toLowerCase k)) kws = []"
    by (simp add: filter_empty_conv)
  then show ?thesis
    by (simp add: calculateRelevance_def foldl_relevance_step)
qed

lemma quest_keywords_no_empty: "[] \<notin> set (quest_keywords q)"
  by (simp add: quest_keywords_def)

lemma objective_keywords_no_empty: "[] \<notin> set (objective_keywords obj)"
  by (auto simp: objective_keywords_def)

text \<open>
  Claim C6: for every context string and every non-empty keyword list without the empty
  keyword, the relevance score is the sum over the keywords of 2 points for a whole-word
  match, 1 point for a substring match and 0 for no match, divided by twice the number of
  keywords (the same holds for a list with the empty keyword when the context is not
  empty). The keyword lists that the two callers build, from a quest and from an objective,
  never hold the empty keyword. For every context and keyword list the score lies in
  \<open>[0, 1]\<close> and is 0 when no keyword occurs in the context (case-insensitive). The context
  "Find the relay station near the checkpoint" scores 1 against the keywords relay and
  checkpoint, strictly more than the 0 of "Go north".
\<close>

theorem calculateRelevance_formula:
  "(kws \<noteq> [] \<and> (ctx \<noteq> [] \<or> [] \<notin> set kws) \<longrightarrow>
      calculateRelevance ctx kws =
        of_nat (sum_list (map (keyword_points ctx) kws)) / of_nat (2 * length kws)) \<and>
   [] \<notin> set (quest_keywords q) \<and> [] \<notin> set (objective_keywords obj) \<and>
   0 \<le> calculateRelevance ctx kws \<and> calculateRelevance ctx kws \<le> 1 \<and>
   ((\<forall>k \<in> set kws. \<not> str_includes (toLowerCase ctx) (toLowerCase k)) \<longrightarrow>
      calculateRelevance ctx kws = 0) \<and>
   calculateRelevance ''Go north'' [''relay'', ''checkpoint'']
     < calculateRelevance ''Find the relay station near the checkpoint'' [''relay'', ''checkpoint'']"
proof -
  have "calculateRelevance ''Go north'' [''relay'', ''checkpoint'']
     < calculateRelevance ''Find the relay station near the checkpoint'' [''relay'', ''checkpoint'']"
    by code_simp
  then show ?thesis
    using calculateRelevance_score [of kws ctx] calculateRelevance_range [of ctx kws]
      calculateRelevance_no_match [of kws ctx] quest_keywords_no_empty [of q]
      objective_keywords_no_empty [of obj]
    by blast
qed

theorem calculateRelevance_formula_witness:
  "[''relay'', ''checkpoint''] \<noteq> [] \<and> [] \<notin> set [''relay'', ''checkpoint''] \<and>
   calculateRelevance ''Find the Relay station near the checkpoint.'' [''relay'', ''checkpoint'']
     = of_nat (sum_list (map (keyword_points ''Find the Relay station near the checkpoint.'')
                             [''relay'', ''checkpoint''])) / of_nat (2 * length [''relay'', ''checkpoint'']) \<and>
   calculateRelevance ''Find the Relay station near the checkpoint.'' [''relay'', ''checkpoint''] = 3 / 4 \<and>
   \<not> str_includes (toLowerCase ''Go north'') (toLowerCase ''relay'') \<and>
   \<not> str_includes (toLowerCase ''Go north'') (toLowerCase ''checkpoint'') \<and>
   calculateRelevance ''Go north'' [''relay'', ''checkpoint''] = 0"
proof -
  have h1: "[''relay'', ''checkpoint''] \<noteq> []" by simp
  have h2: "[] \<notin> set [''relay'', ''checkpoint'']" by simp
  have h3: "\<forall>k \<in> set [''relay'', ''checkpoint''].
              \<not> str_includes (toLowerCase ''Go north'') (toLowerCase k)"
    by code_simp
  have v: "calculateRelevance ''Find the Relay station near the checkpoint.''
             [''relay'', ''checkpoint''] = 3 / 4"
    by code_simp
  show ?thesis
    using h1 h2 h3 v
      calculateRelevance_formula [where kws = "[''relay'', ''checkpoint'']"
        and ctx = "''Find the Relay station near the checkpoint.''"]
      calculateRelevance_formula [where kws = "[''relay'', ''checkpoint'']"
        and ctx = "''Go north''"]
    by simp
qed

section \<open>Properties of the scraped images\<close>

lemma scrape_element_score:
  "scrape_element resolve l kws elem = Inr (Some img) \<Longrightarrow>
   relevanceScore img =
     (if calculateRelevance (element_context elem) kws = 0 then 1 / 10
      else calculateRelevance (element_context elem) kws)"
  by (auto simp: scrape_element_def Let_def split: if_splits option.splits)

lemma scrape_element_positive:
  "scrape_element resolve l kws elem = Inr (Some img) \<Longrightarrow> 0 < relevanceScore img"
  using calculateRelevance_range [of "element_context elem" kws]
  by (auto simp: scrape_element_score)

lemma scrape_elements_positive:
  "scrape_elements resolve l kws acc elems = Inr imgs \<Longrightarrow>
   \<forall>i \<in> set acc. 0 < relevanceScore i \<Longrightarrow> \<forall>i \<in> set imgs. 0 < relevanceScore i"
proof (induction elems arbitrary: acc)
  case Nil
  then show ?case by simp
next
  case (Cons e es)
  show ?case
  proof (cases "scrape_element resolve l kws e")
    case (Inl err)
    with Cons.prems show ?thesis by simp
  next
    case (Inr r)
    show ?thesis
    proof (cases r)
      case None
      with Inr Cons show ?thesis by simp
    next
      case (Some img)
      with Inr have "0 < relevanceScore img" by (simp add: scrape_element_positive)
      with Cons.prems(2) have "\<forall>i \<in> set (acc @ [img]). 0 < relevanceScore i" by simp
      moreover from Cons.prems(1) Inr Some
      have "scrape_elements resolve l kws (acc @ [img]) es = Inr imgs" by simp
      ultimately show ?thesis using Cons.IH by blast
    qed
  qed
qed

lemma scraped_positive:
  assumes "img \<in> set (scrapeWikiImages resolve fetch link q)"
  shows "0 < relevanceScore img"
proof -
  from assms obtain l elems imgs where
    s: "scrape_elements resolve l (quest_keywords q) [] elems = Inr imgs" and
    m: "img \<in> set (take 10 (sort_key (\<lambda>i. - relevanceScore i) imgs))"
    by (auto simp: scrapeWikiImages_def split: option.splits if_splits page.splits sum.splits)
       metis
  from m have "img \<in> set imgs" by (auto dest: in_set_takeD)
  with scrape_elements_positive [OF s] show ?thesis by simp
qed

text \<open>
  Claim C10 as stated fails: \<open>relevanceScore || 0.1\<close> replaces only the score 0. For the
  quest "Shortage" (8 keywords) an image whose context "Warehouses overview" contains one
  keyword as a substring has the computed relevance \<open>1 / 16\<close>; it is accepted through the
  content-image branch and kept with the stored score \<open>1 / 16\<close>, below \<open>0.1\<close>.
\<close>

theorem scrapeWikiImages_score_counterexample:
  "map relevanceScore
     (scrapeWikiImages no_resolve warehouse_page (wikiLink shortage_quest) shortage_quest)
     = [1 / 16] \<and> (1 / 16 :: rat) < 1 / 10"
  by code_simp

text \<open>
  Claim C10, amended: every scraped wiki image that is kept carries a stored relevanceScore
  greater than 0. The stored score is \<open>0.1\<close> when the computed relevance is 0 and the
  computed relevance itself otherwise, so it can differ from the computed relevance, and it
  is below \<open>0.1\<close> for an image of computed relevance in \<open>(0, 0.1)\<close> accepted through the
  content-image branch.
\<close>

theorem scrapeWikiImages_score_positive:
  "(img \<in> set (scrapeWikiImages resolve fetch link q) \<longrightarrow> 0 < relevanceScore img) \<and>
   (scrape_element resolve l kws elem = Inr (Some img') \<longrightarrow>
      relevanceScore img' =
        (if calculateRelevance (element_context elem) kws = 0 then 1 / 10
         else calculateRelevance (element_context elem) kws))"
  using scraped_positive [of img resolve fetch link q]
    scrape_element_score [of resolve l kws elem img']
  by blast

theorem scrapeWikiImages_score_positive_witness:
  "\<lparr> url = ''https://wiki.example/images/map.png'', alt = ''Map'', title = [],
      wiki_description = ''Warehouses overview'', relevanceScore = 1 / 16, source = ''wiki'' \<rparr>
     \<in> set (scrapeWikiImages no_resolve warehouse_page (wikiLink shortage_quest) shortage_quest) \<and>
   scrape_element no_resolve ''https://wiki.example/Shortage'' [''relay''] warehouse_elem
     = Inr (Some \<lparr> url = ''https://wiki.example/images/map.png'', alt = ''Map'', title = [],
                   wiki_description = ''Warehouses overview'', relevanceScore = 1 / 10,
                   source = ''wiki'' \<rparr>) \<and>
   calculateRelevance (element_context warehouse_elem) [''relay''] = 0 \<and>
   (0 :: rat) < relevanceScore
      \<lparr> url = ''https://wiki.example/images/map.png'', alt = ''Map'', title = [],
        wiki_description = ''Warehouses overview'', relevanceScore = 1 / 16, source = ''wiki'' \<rparr>"
proof -
  have h1: "\<lparr> url = ''https://wiki.example/images/map.png'', alt = ''Map'', title = [],
      wiki_description = ''Warehouses overview'', relevanceScore = 1 / 16, source = ''wiki'' \<rparr>
     \<in> set (scrapeWikiImages no_resolve warehouse_page (wikiLink shortage_quest) shortage_quest)"
    by code_simp
  have h2: "scrape_element no_resolve ''https://wiki.example/Shortage'' [''relay''] warehouse_elem
     = Inr (Some \<lparr> url = ''https://wiki.example/images/map.png'', alt = ''Map'', title = [],
                   wiki_description = ''Warehouses overview'', relevanceScore = 1 / 10,
                   source = ''wiki'' \<rparr>)"
    by code_simp
  have h3: "calculateRelevance (element_context warehouse_elem) [''relay''] = 0"
    by code_simp
  show ?thesis
    using h1 h2 h3
      scrapeWikiImages_score_positive [where resolve = no_resolve and fetch = warehouse_page
        and link = "wikiLink shortage_quest" and q = shortage_quest
        and l = "''https://wiki.example/Shortage''" and kws = "[''relay'']"
        and elem = warehouse_elem]
    by blast
qed

section \<open>Properties of the per-objective image match\<close>

lemma find_first_split:
  assumes "find P xs = Some m"
  shows "\<exists>pre post. xs = pre @ m # post \<and> (\<forall>x \<in> set pre. \<not> P x) \<and> P m"
using assms proof (induction xs)
  case Nil
  then show ?case by simp
next
  case (Cons x xs)
  show ?case
  proof (cases "P x")
    case True
    with Cons.prems have "x = m" by simp
    with True have "x # xs = [] @ m # xs \<and> (\<forall>y \<in> set []. \<not> P y) \<and> P m" by simp
    then show ?thesis by blast
  next
    case False
    with Cons.prems have "find P xs = Some m" by simp
    with Cons.IH obtain pre post where
      "xs = pre @ m # post" "\<forall>y \<in> set pre. \<not> P y" "P m" by blast
    with False have "x # xs = (x # pre) @ m # post \<and> (\<forall>y \<in> set (x # pre). \<not> P y) \<and> P m"
      by simp
    then show ?thesis by blast
  qed
qed

lemma first_match_best:
  assumes "sorted_wrt (\<lambda>a b. f b \<le> (f a :: rat)) (pre @ m # post)"
    and "\<forall>x \<in> set pre. \<not> P x" and "x \<in> set (pre @ m # post)" and "P x"
  shows "f x \<le> f m"
proof -
  from assms(2,3,4) have "x = m \<or> x \<in> set post" by auto
  with assms(1) show ?thesis by (auto simp: sorted_wrt_append)
qed

lemma findImage_full:
  "find (\<lambda>img. api_type img = ''image'') (structural_images idx imgs) = Some full \<Longrightarrow>
   findImageForObjective obj idx imgs = Some (api_url full)"
  by (auto simp: findImageForObjective_def structural_images_def Let_def split: option.splits)

lemma findImage_icon:
  assumes "structural_images idx imgs \<noteq> []"
    and "\<forall>img \<in> set (structural_images idx imgs). api_type img \<noteq> ''image''"
  shows "findImageForObjective obj idx imgs = Some (api_url (hd (structural_images idx imgs)))"
proof -
  from assms(2) have "find (\<lambda>img. api_type img = ''image'') (structural_images idx imgs) = None"
    by (simp add: find_None_iff)
  with assms(1) show ?thesis
    by (auto simp: findImageForObjective_def structural_images_def Let_def split: option.splits)
qed

lemma findImage_wiki_match:
  assumes "structural_images idx imgs = []" and "\<exists>w \<in> set (wikiImages imgs). wiki_matches obj w"
  shows "\<exists>pre m post. wikiImages imgs = pre @ m # post \<and> (\<forall>x \<in> set pre. \<not> wiki_matches obj x) \<and>
           wiki_matches obj m \<and> findImageForObjective obj idx imgs = Some (url m) \<and>
           (sorted_wrt (\<lambda>a b. relevanceScore b \<le> relevanceScore a) (wikiImages imgs) \<longrightarrow>
              (\<forall>x \<in> set (wikiImages imgs). wiki_matches obj x \<longrightarrow> relevanceScore x \<le> relevanceScore m))"
proof -
  from assms(2) obtain m where m: "find (wiki_matches obj) (wikiImages imgs) = Some m"
    by (cases "find (wiki_matches obj) (wikiImages imgs)") (auto simp: find_None_iff)
  from find_first_split [OF m] obtain pre post where
    sp: "wikiImages imgs = pre @ m # post" "\<forall>x \<in> set pre. \<not> wiki_matches obj x" "wiki_matches obj m"
    by blast
  from assms(1) m sp(1) have r: "findImageForObjective obj idx imgs = Some (url m)"
    by (auto simp: findImageForObjective_def structural_images_def Let_def split: option.splits)
  have "sorted_wrt (\<lambda>a b. relevanceScore b \<le> relevanceScore a) (wikiImages imgs) \<longrightarrow>
        (\<forall>x \<in> set (wikiImages imgs). wiki_matches obj x \<longrightarrow> relevanceScore x \<le> relevanceScore m)"
    using first_match_best [of relevanceScore pre m post "wiki_matches obj"] sp by auto
  with sp r show ?thesis by blast
qed

lemma findImage_wiki_first:
  assumes "structural_images idx imgs = []" and "wikiImages imgs \<noteq> []"
    and "\<forall>w \<in> set (wikiImages imgs). \<not> wiki_matches obj w"
  shows "findImageForObjective obj idx imgs = Some (url (hd (wikiImages imgs)))"
proof -
  from assms(3) have "find (wiki_matches obj) (wikiImages imgs) = None"
    by (simp add: find_None_iff)
  with assms(1,2) show ?thesis
    by (auto simp: findImageForObjective_def structural_images_def Let_def split: option.splits)
qed

lemma findImage_none:
  "structural_images idx imgs = [] \<Longrightarrow> wikiImages imgs = [] \<Longrightarrow>
   findImageForObjective obj idx imgs = None"
  by (auto simp: findImageForObjective_def structural_images_def Let_def split: option.splits)

lemma scrapeWikiImages_sorted:
  "sorted_wrt (\<lambda>a b. relevanceScore b \<le> relevanceScore a)
     (scrapeWikiImages resolve fetch link q)"
proof -
  have s: "sorted_wrt (\<lambda>a b. relevanceScore b \<le> relevanceScore a)
             (sort_key (\<lambda>i. - relevanceScore i) imgs)" for imgs :: "wiki_image list"
  proof -
    have "sorted (map (\<lambda>i. - relevanceScore i) (sort_key (\<lambda>i. - relevanceScore i) imgs))"
      by (rule sorted_sort_key)
    then show ?thesis by (simp add: sorted_map)
  qed
  have t: "sorted_wrt (\<lambda>a b. relevanceScore b \<le> relevanceScore a)
             (take 10 (sort_key (\<lambda>i. - relevanceScore i) imgs))" for imgs :: "wiki_image list"
    using s [of imgs] by (rule sorted_wrt_take)
  show ?thesis
    by (auto simp: scrapeWikiImages_def t split: option.splits page.splits sum.splits)
qed

lemma getQuestImages_sorted:
  "sorted_wrt (\<lambda>a b. relevanceScore b \<le> relevanceScore a)
     (wikiImages (getQuestImages resolve fetch q))"
  by (auto simp: getQuestImages_def Let_def scrapeWikiImages_sorted split: option.splits)

text \<open>
  Claim C5: for every objective, objective index and image set, the match follows the
  preference order: the first structural full image for that index (of the first
  structural entry with that index); then, when that entry has images but no full image,
  its first image (an icon); then, when it has no images, the best-scoring scraped image
  whose description/alt relevance to the objective's keyword set exceeds \<open>0.5\<close>; then
  the first scraped image; then none. The scraped image returned is the first of the
  sequence that exceeds the threshold; the collector always delivers the scraped images
  sorted by descending stored score, and on a sequence so sorted the first match has the
  highest stored score among the matches. In particular a structural icon is returned
  whatever the scraped images are.
\<close>

theorem findImageForObjective_preference:
  "(\<forall>full. find (\<lambda>img. api_type img = ''image'') (structural_images idx imgs) = Some full \<longrightarrow>
      findImageForObjective obj idx imgs = Some (api_url full)) \<and>
   (structural_images idx imgs \<noteq> [] \<and>
    (\<forall>img \<in> set (structural_images idx imgs). api_type img \<noteq> ''image'') \<longrightarrow>
      findImageForObjective obj idx imgs = Some (api_url (hd (structural_images idx imgs)))) \<and>
   (structural_images idx imgs = [] \<and> (\<exists>w \<in> set (wikiImages imgs). wiki_matches obj w) \<longrightarrow>
      (\<exists>pre m post. wikiImages imgs = pre @ m # post \<and>
         (\<forall>x \<in> set pre. \<not> wiki_matches obj x) \<and> wiki_matches obj m \<and>
         findImageForObjective obj idx imgs = Some (url m) \<and>
         (sorted_wrt (\<lambda>a b. relevanceScore b \<le> relevanceScore a) (wikiImages imgs) \<longrightarrow>
            (\<forall>x \<in> set (wikiImages imgs). wiki_matches obj x \<longrightarrow>
               relevanceScore x \<le> relevanceScore m)))) \<and>
   (structural_images idx imgs = [] \<and> wikiImages imgs \<noteq> [] \<and>
    (\<forall>w \<in> set (wikiImages imgs). \<not> wiki_matches obj w) \<longrightarrow>
      findImageForObjective obj idx imgs = Some (url (hd (wikiImages imgs)))) \<and>
   (structural_images idx imgs = [] \<and> wikiImages imgs = [] \<longrightarrow>
      findImageForObjective obj idx imgs = None) \<and>
   sorted_wrt (\<lambda>a b. relevanceScore b \<le> relevanceScore a)
     (wikiImages (getQuestImages resolve fetch q))"
  using findImage_full [of idx imgs _ obj] findImage_icon [of idx imgs obj]
    findImage_wiki_match [of idx imgs obj] findImage_wiki_first [of idx imgs obj]
    findImage_none [of idx imgs obj] getQuestImages_sorted [of resolve fetch q]
  by blast

theorem findImageForObjective_preference_witness:
  "structural_images 0 icon_images = [icon_image] \<and> api_type icon_image \<noteq> ''image'' \<and>
   relevanceScore relay_image = 9 / 10 \<and> wikiImages icon_images = [relay_image] \<and>
   findImageForObjective relay_objective 0 icon_images = Some (api_url icon_image) \<and>
   structural_images 0 sorted_images = [] \<and>
   wikiImages sorted_images = [relay_image, tower_image] \<and>
   sorted_wrt (\<lambda>a b. relevanceScore b \<le> relevanceScore a) (wikiImages sorted_images) \<and>
   wiki_matches relay_objective relay_image \<and> wiki_matches relay_objective tower_image \<and>
   relevanceScore tower_image \<le> relevanceScore relay_image \<and>
   findImageForObjective relay_objective 0 sorted_images = Some (url relay_image)"
proof -
  have h1: "structural_images 0 icon_images = [icon_image]" by code_simp
  have h2: "api_type icon_image \<noteq> ''image''" by code_simp
  have h3: "relevanceScore relay_image = 9 / 10" by code_simp
  have h4: "wikiImages icon_images = [relay_image]" by code_simp
  have h5: "structural_images 0 sorted_images = []" by code_simp
  have h6: "wiki_matches relay_objective relay_image" by code_simp
  have h7: "wiki_matches relay_objective tower_image" by code_simp
  have h8: "wikiImages sorted_images = [relay_image, tower_image]" by code_simp
  have h9: "relevanceScore tower_image \<le> relevanceScore relay_image" by code_simp
  from h8 h9 have h10:
    "sorted_wrt (\<lambda>a b. relevanceScore b \<le> relevanceScore a) (wikiImages sorted_images)"
    by simp
  from h1 h2 have a: "findImageForObjective relay_objective 0 icon_images = Some (api_url icon_image)"
    using findImageForObjective_preference [where idx = 0 and imgs = icon_images
        and obj = relay_objective and resolve = no_resolve and fetch = no_page
        and q = three_quest]
    by simp
  have ex: "\<exists>w \<in> set (wikiImages sorted_images). wiki_matches relay_objective w"
    using h6 h8 by simp
  have "\<exists>pre m post. wikiImages sorted_images = pre @ m # post \<and>
         (\<forall>x \<in> set pre. \<not> wiki_matches relay_objective x) \<and> wiki_matches relay_objective m \<and>
         findImageForObjective relay_objective 0 sorted_images = Some (url m)"
    using h5 ex findImageForObjective_preference [where idx = 0 and imgs = sorted_images
        and obj = relay_objective and resolve = no_resolve and fetch = no_page
        and q = three_quest]
    by blast
  then obtain pre m post where
    sp: "[relay_image, tower_image] = pre @ m # post"
        "\<forall>x \<in> set pre. \<not> wiki_matches relay_objective x" and
    r: "findImageForObjective relay_objective 0 sorted_images = Some (url m)"
    using h8 by auto
  from sp h6 have "m = relay_image" by (cases pre) auto
  with r have b: "findImageForObjective relay_objective 0 sorted_images = Some (url relay_image)"
    by simp
  from h1 h2 h3 h4 h5 h6 h7 h8 h9 h10 a b show ?thesis by blast
qed

section \<open>Properties of the cache key\<close>

lemma length_word_hex: "length (word_hex w) = 8"
  by (simp add: word_hex_def hex_byte_def)

lemma length_md5_hex: "length (md5_hex s) = 32"
proof -
  obtain a b c d where "foldl md5_block md5_init (md5_blocks (map of_char s)) = (a, b, c, d)"
    using prod_cases4 by blast
  then show ?thesis by (simp add: md5_hex_def length_word_hex)
qed

text \<open>The 64 operations of a block, in the four rounds of 16.\<close>

lemma upt64:
  "[0..<64] =
     [0, 1, 2, 3, 4, 5, 6, 7, 8, 9, 10, 11, 12, 13, 14, 15] @
     [16, 17, 18, 19, 20, 21, 22, 23, 24, 25, 26, 27, 28, 29, 30, 31] @
     [32, 33, 34, 35, 36, 37, 38, 39, 40, 41, 42, 43, 44, 45, 46, 47] @
     [48, 49, 50, 51, 52, 53, 54, 55, 56, 57, 58, 59, 60, 61, 62, 63]"
  by code_simp

lemmas md5_eval = md5_block_def upt64 md5_f_def md5_g_def add32_def not32_def rotl32_def
  md5_S_def md5_K_def

lemma md5_scav_2994:
  "take 8 (md5_hex (JSON_stringify [scav_objective ''Eliminate 2994 Scavs''])) = ''5c6ec315''"
proof -
  have b: "md5_blocks (map of_char (JSON_stringify [scav_objective ''Eliminate 2994 Scavs''])) =
    [[1763867483, 574235236, 740438383, 1936024610, 1885958755, 1852795252, 1159871010,
      1768778092, 1702125934, 960049696, 1666392116, 577992289, 1886331436, 1852795252,
      975334497, 1936482662],
     [1948396645, 577073273, 1752375866, 578056047, 8412541, 0, 0, 0, 0, 0, 0, 0, 0, 0, 656, 0]]"
    by code_simp
  have s1: "md5_block (1732584193, 4023233417, 2562383102, 271733878)
      [1763867483, 574235236, 740438383, 1936024610, 1885958755, 1852795252, 1159871010,
       1768778092, 1702125934, 960049696, 1666392116, 577992289, 1886331436, 1852795252,
       975334497, 1936482662] = (197616362, 2839041719, 3934587338, 615030146)"
    by (simp add: md5_eval)
  have s2: "md5_block (197616362, 2839041719, 3934587338, 615030146)
      [1948396645, 577073273, 1752375866, 578056047, 8412541, 0, 0, 0, 0, 0, 0, 0, 0, 0, 656, 0]
      = (365129308, 1707085477, 1410727695, 677742967)"
    by (simp add: md5_eval)
  have h: "take 8 (state_hex (365129308, 1707085477, 1410727695, 677742967)) = ''5c6ec315''"
    by code_simp
  show ?thesis
    by (simp only: md5_hex_def b md5_init_def foldl.simps numeral_eq_iff s1 s2 h)
qed

lemma md5_scav_17450:
  "take 8 (md5_hex (JSON_stringify [scav_objective ''Eliminate 17450 Scavs''])) = ''5c6ec315''"
proof -
  have b: "md5_blocks (map of_char (JSON_stringify [scav_objective ''Eliminate 17450 Scavs''])) =
    [[1763867483, 574235236, 740438383, 1936024610, 1885958755, 1852795252, 1159871010,
      1768778092, 1702125934, 876032288, 1394618421, 1937138019, 1864510498, 1869182064,
      577528174, 1818322490],
     [573334899, 1701869940, 1931622946, 1953460072, 2153610530, 0, 0, 0, 0, 0, 0, 0, 0, 0,
      664, 0]]"
    by code_simp
  have s1: "md5_block (1732584193, 4023233417, 2562383102, 271733878)
      [1763867483, 574235236, 740438383, 1936024610, 1885958755, 1852795252, 1159871010,
       1768778092, 1702125934, 876032288, 1394618421, 1937138019, 1864510498, 1869182064,
       577528174, 1818322490] = (406480718, 1630457432, 94731630, 2013257872)"
    by (simp add: md5_eval)
  have s2: "md5_block (406480718, 1630457432, 94731630, 2013257872)
      [573334899, 1701869940, 1931622946, 1953460072, 2153610530, 0, 0, 0, 0, 0, 0, 0, 0, 0,
       664, 0] = (365129308, 3984405403, 750233450, 3055747057)"
    by (simp add: md5_eval)
  have h: "take 8 (state_hex (365129308, 3984405403, 750233450, 3055747057)) = ''5c6ec315''"
    by code_simp
  show ?thesis
    by (simp only: md5_hex_def b md5_init_def foldl.simps numeral_eq_iff s1 s2 h)
qed

lemma md5_scav_2995:
  "take 8 (md5_hex (JSON_stringify [scav_objective ''Eliminate 2995 Scavs''])) = ''6c6e047d''"
proof -
  have b: "md5_blocks (map of_char (JSON_stringify [scav_objective ''Eliminate 2995 Scavs''])) =
    [[1763867483, 574235236, 740438383, 1936024610, 1885958755, 1852795252, 1159871010,
      1768778092, 1702125934, 960049696, 1666392117, 577992289, 1886331436, 1852795252,
      975334497, 1936482662],
     [1948396645, 577073273, 1752375866, 578056047, 8412541, 0, 0, 0, 0, 0, 0, 0, 0, 0, 656, 0]]"
    by code_simp
  have s1: "md5_block (1732584193, 4023233417, 2562383102, 271733878)
      [1763867483, 574235236, 740438383, 1936024610, 1885958755, 1852795252, 1159871010,
       1768778092, 1702125934, 960049696, 1666392117, 577992289, 1886331436, 1852795252,
       975334497, 1936482662] = (3098652417, 10156919, 2109603402, 382464443)"
    by (simp add: md5_eval)
  have s2: "md5_block (3098652417, 10156919, 2109603402, 382464443)
      [1948396645, 577073273, 1752375866, 578056047, 8412541, 0, 0, 0, 0, 0, 0, 0, 0, 0, 656, 0]
      = (2097442412, 2291764122, 921319726, 991585893)"
    by (simp add: md5_eval)
  have h: "take 8 (state_hex (2097442412, 2291764122, 921319726, 991585893)) = ''6c6e047d''"
    by code_simp
  show ?thesis
    by (simp only: md5_hex_def b md5_init_def foldl.simps numeral_eq_iff s1 s2 h)
qed

lemma generateCacheKey_eq_prefix:
  "generateCacheKey q1 o1 = generateCacheKey q2 o2 \<longleftrightarrow>
   q1 = q2 \<and> take 8 (md5_hex (JSON_stringify o1)) = take 8 (md5_hex (JSON_stringify o2))"
proof -
  have l: "length ('':'' @ take 8 (md5_hex (JSON_stringify o1))) =
           length ('':'' @ take 8 (md5_hex (JSON_stringify o2)))"
    by (simp add: length_md5_hex)
  have "generateCacheKey q1 o1 = generateCacheKey q2 o2 \<longleftrightarrow>
        (''quest:'' @ q1) @ ('':'' @ take 8 (md5_hex (JSON_stringify o1))) =
        (''quest:'' @ q2) @ ('':'' @ take 8 (md5_hex (JSON_stringify o2)))"
    by (simp add: generateCacheKey_def)
  also have "\<dots> \<longleftrightarrow> ''quest:'' @ q1 = ''quest:'' @ q2 \<and>
        '':'' @ take 8 (md5_hex (JSON_stringify o1)) = '':'' @ take 8 (md5_hex (JSON_stringify o2))"
    using l by (rule append_eq_append_conv [OF disjI2])
  finally show ?thesis by simp
qed

text \<open>The serialisation is injective: a quoted string tells where it ends.\<close>

lemma of_char_range: "0 \<le> (of_char c :: int) \<and> (of_char c :: int) < 256"
proof -
  have "(of_char c :: int) = of_nat (of_char c :: nat)" by (simp add: of_nat_of_char)
  moreover have "(of_char c :: nat) < 256" by simp
  ultimately show ?thesis by linarith
qed

lemma json_escape_prefix_free:
  assumes "json_escape c @ xs = json_escape d @ ys"
  shows "c = d \<and> xs = ys"
proof -
  define unhex :: "char \<Rightarrow> int" where
    "unhex ch = (if (of_char ch :: int) < 58 then of_char ch - 48 else of_char ch - 87)" for ch
  define dec :: "string \<Rightarrow> int" where
    "dec s =
       (if hd s \<noteq> CHR 0x5C then of_char (hd s)
        else if s ! 1 = CHR 0x22 then 34
        else if s ! 1 = CHR 0x5C then 92
        else if s ! 1 = CHR ''b'' then 8
        else if s ! 1 = CHR ''f'' then 12
        else if s ! 1 = CHR ''n'' then 10
        else if s ! 1 = CHR ''r'' then 13
        else if s ! 1 = CHR ''t'' then 9
        else 16 * unhex (s ! 4) + unhex (s ! 5))" for s
  have uh: "unhex (hex_digit k) = k" if "0 \<le> k" "k < 16" for k
  proof -
    from that have "(48 + k) mod 256 = 48 + k" "(87 + k) mod 256 = 87 + k" by simp_all
    with that show ?thesis by (simp add: unhex_def hex_digit_def)
  qed
  have D: "dec (json_escape e @ zs) = of_char e" for e zs
  proof -
    let ?n = "of_char e :: int"
    have r: "0 \<le> ?n" "?n < 256" using of_char_range by auto
    then have b: "0 \<le> ?n div 16" "0 \<le> ?n mod 16" "?n mod 16 < 16" by auto
    have u: "?n < 32 \<Longrightarrow> 16 * unhex (hex_digit (?n div 16)) + unhex (hex_digit (?n mod 16)) = ?n"
    proof -
      assume "?n < 32"
      with r have "?n div 16 < 16" by simp
      with b show ?thesis by (simp add: uh)
    qed
    have p: "e = CHR 0x5C \<Longrightarrow> ?n = 92" by simp
    show ?thesis
      using u p by (auto simp: json_escape_def Let_def dec_def hex_byte_def)
  qed
  from assms have "dec (json_escape c @ xs) = dec (json_escape d @ ys)" by simp
  then have "(of_char c :: int) = of_char d" by (simp add: D)
  then have "c = d" by simp
  with assms show ?thesis by simp
qed

lemma json_escape_head: "\<exists>h t. json_escape c = h # t \<and> h \<noteq> CHR 0x22"
  by (auto simp: json_escape_def Let_def)

lemma escaped_body_prefix_free:
  "concat (map json_escape a) @ CHR 0x22 # r1 = concat (map json_escape b) @ CHR 0x22 # r2
   \<Longrightarrow> a = b \<and> r1 = r2"
proof (induction a arbitrary: b)
  case Nil
  show ?case
  proof (cases b)
    case Nil
    with Nil.prems show ?thesis by simp
  next
    case (Cons d b')
    obtain h t where "json_escape d = h # t" "h \<noteq> CHR 0x22"
      using json_escape_head by blast
    with Nil.prems Cons show ?thesis by simp
  qed
next
  case (Cons c a')
  show ?case
  proof (cases b)
    case Nil
    obtain h t where "json_escape c = h # t" "h \<noteq> CHR 0x22"
      using json_escape_head by blast
    with Cons.prems Nil show ?thesis by simp
  next
    case (Cons d b')
    with Cons.prems have
      "json_escape c @ (concat (map json_escape a') @ CHR 0x22 # r1) =
       json_escape d @ (concat (map json_escape b') @ CHR 0x22 # r2)"
      by simp
    from json_escape_prefix_free [OF this] have cd: "c = d" and
      rest: "concat (map json_escape a') @ CHR 0x22 # r1 =
             concat (map json_escape b') @ CHR 0x22 # r2"
      by simp_all
    from Cons.IH [OF rest] cd Cons show ?thesis by simp
  qed
qed

lemma json_quote_prefix_free:
  assumes "json_quote a @ r1 = json_quote b @ r2"
  shows "a = b \<and> r1 = r2"
  using assms escaped_body_prefix_free [of a r1 b r2] by (simp add: json_quote_def)

lemma objective_json_prefix_free:
  assumes "objective_json x @ r1 = objective_json y @ r2"
  shows "x = y \<and> r1 = r2"
proof -
  let ?t = "\<lambda>ob r. '','' @ json_quote ''type'' @ '':'' @ json_quote (obj_type ob) @ ''}'' @ r"
  let ?b = "\<lambda>ob r. (if optional ob then ''true'' else ''false'') @ ?t ob r"
  let ?d = "\<lambda>ob r. '','' @ json_quote ''optional'' @ '':'' @ ?b ob r"
  let ?i = "\<lambda>ob r. '','' @ json_quote ''description'' @ '':'' @ json_quote (description ob) @ ?d ob r"
  from assms have "json_quote (obj_id x) @ ?i x r1 = json_quote (obj_id y) @ ?i y r2"
    by (simp add: objective_json_def)
  from json_quote_prefix_free [OF this] have 1: "obj_id x = obj_id y" and "?i x r1 = ?i y r2"
    by simp_all
  then have "json_quote (description x) @ ?d x r1 = json_quote (description y) @ ?d y r2"
    by simp
  from json_quote_prefix_free [OF this] have 2: "description x = description y"
    and "?d x r1 = ?d y r2"
    by simp_all
  then have b: "?b x r1 = ?b y r2" by simp
  then have 3: "optional x = optional y" by (auto split: if_splits)
  with b have "json_quote (obj_type x) @ ''}'' @ r1 = json_quote (obj_type y) @ ''}'' @ r2"
    by (auto split: if_splits)
  from json_quote_prefix_free [OF this] have 4: "obj_type x = obj_type y" and 5: "r1 = r2"
    by simp_all
  from 1 2 3 4 have "x = y" by (cases x, cases y) simp
  with 5 show ?thesis by simp
qed

lemma objective_json_head: "\<exists>t. objective_json x = CHR ''{'' # t"
  by (simp add: objective_json_def)

lemma join_comma_Cons:
  "join_comma (s # ss) = s @ (if ss = [] then [] else '','' @ join_comma ss)"
  by (cases ss) simp_all

lemma join_json_inj:
  "join_comma (map objective_json xs) @ CHR '']'' # r1 =
   join_comma (map objective_json ys) @ CHR '']'' # r2 \<Longrightarrow> xs = ys"
proof (induction xs arbitrary: ys)
  case Nil
  show ?case
  proof (cases ys)
    case Nil
    then show ?thesis by simp
  next
    case (Cons y ys')
    obtain t where "objective_json y = CHR ''{'' # t" using objective_json_head by blast
    with Nil.prems Cons show ?thesis by (simp add: join_comma_Cons)
  qed
next
  case (Cons x xs')
  show ?case
  proof (cases ys)
    case Nil
    obtain t where "objective_json x = CHR ''{'' # t" using objective_json_head by blast
    with Cons.prems Nil show ?thesis by (simp add: join_comma_Cons)
  next
    case (Cons y ys')
    let ?tl = "\<lambda>zs r. (if zs = [] then [] else '','' @ join_comma (map objective_json zs))
                 @ CHR '']'' # r"
    from Cons.prems Cons have "objective_json x @ ?tl xs' r1 = objective_json y @ ?tl ys' r2"
      by (simp add: join_comma_Cons)
    from objective_json_prefix_free [OF this] have xy: "x = y" and tl: "?tl xs' r1 = ?tl ys' r2"
      by simp_all
    have "xs' = ys'"
    proof (cases "xs' = []")
      case True
      with tl show ?thesis by (auto split: if_splits)
    next
      case False
      with tl have ne: "ys' \<noteq> []" by (auto split: if_splits)
      with False tl have "join_comma (map objective_json xs') @ CHR '']'' # r1 =
                          join_comma (map objective_json ys') @ CHR '']'' # r2"
        by simp
      then show ?thesis by (rule Cons.IH)
    qed
    with xy Cons show ?thesis by simp
  qed
qed

lemma JSON_stringify_inj: "JSON_stringify a = JSON_stringify b \<longleftrightarrow> a = b"
proof
  assume "JSON_stringify a = JSON_stringify b"
  then have "join_comma (map objective_json a) @ CHR '']'' # [] =
             join_comma (map objective_json b) @ CHR '']'' # []"
    by (simp add: JSON_stringify_def)
  then show "a = b" by (rule join_json_inj)
qed simp

text \<open>
  Claim C3 as stated fails: the key keeps 8 hexadecimal digits (32 bits) of the digest, so
  objective lists that differ in a description can share a fingerprint. The objective lists
  with the single description "Eliminate 2994 Scavs" and "Eliminate 17450 Scavs" (same
  identifier, flag and type) both give the digest prefix \<open>5c6ec315\<close> and so the same key
  for the same quest identifier.
\<close>

theorem generateCacheKey_collision_counterexample:
  "generateCacheKey ''5936d90786f7742b1420ba5b'' [scav_objective ''Eliminate 2994 Scavs'']
     = generateCacheKey ''5936d90786f7742b1420ba5b'' [scav_objective ''Eliminate 17450 Scavs''] \<and>
   description (scav_objective ''Eliminate 2994 Scavs'')
     \<noteq> description (scav_objective ''Eliminate 17450 Scavs'') \<and>
   generateCacheKey ''5936d90786f7742b1420ba5b'' [scav_objective ''Eliminate 2994 Scavs'']
     = ''quest:5936d90786f7742b1420ba5b:5c6ec315''"
proof -
  have "description (scav_objective ''Eliminate 2994 Scavs'')
          \<noteq> description (scav_objective ''Eliminate 17450 Scavs'')"
    by (simp add: scav_objective_def)
  then show ?thesis
    by (simp add: generateCacheKey_def md5_scav_2994 md5_scav_17450)
qed

text \<open>
  Claim C3, amended: the cache-key fingerprint is deterministic: structurally equal inputs
  yield the same key. It is objective-sensitive up to collisions of the 32 bits of the
  digest that the key keeps: the JSON serialisation of the objective list is injective, so
  objective lists that differ in any objective description give different inputs to MD5,
  and for the same quest identifier they yield two different fingerprints exactly when the
  first 8 hexadecimal digits of the two digests differ. The descriptions "Eliminate 2994
  Scavs" and "Eliminate 2995 Scavs" yield different keys, with the digits
  \<open>5c6ec315\<close> and \<open>6c6e047d\<close>.
\<close>

theorem generateCacheKey_sensitivity:
  "(JSON_stringify o1 = JSON_stringify o2 \<longleftrightarrow> o1 = o2) \<and>
   (o1 = o2 \<longrightarrow> generateCacheKey q o1 = generateCacheKey q o2) \<and>
   (map description o1 \<noteq> map description o2 \<longrightarrow>
      JSON_stringify o1 \<noteq> JSON_stringify o2 \<and>
      (generateCacheKey q o1 \<noteq> generateCacheKey q o2 \<longleftrightarrow>
         take 8 (md5_hex (JSON_stringify o1)) \<noteq> take 8 (md5_hex (JSON_stringify o2)))) \<and>
   (generateCacheKey q1 o1 = generateCacheKey q2 o2 \<longleftrightarrow>
      q1 = q2 \<and> take 8 (md5_hex (JSON_stringify o1)) = take 8 (md5_hex (JSON_stringify o2))) \<and>
   generateCacheKey ''5936d90786f7742b1420ba5b'' [scav_objective ''Eliminate 2994 Scavs'']
     \<noteq> generateCacheKey ''5936d90786f7742b1420ba5b'' [scav_objective ''Eliminate 2995 Scavs'']"
proof -
  have a: "map description o1 \<noteq> map description o2 \<longrightarrow> JSON_stringify o1 \<noteq> JSON_stringify o2"
    using JSON_stringify_inj [of o1 o2] by auto
  have b: "generateCacheKey ''5936d90786f7742b1420ba5b'' [scav_objective ''Eliminate 2994 Scavs'']
     \<noteq> generateCacheKey ''5936d90786f7742b1420ba5b'' [scav_objective ''Eliminate 2995 Scavs'']"
    by (simp add: generateCacheKey_eq_prefix md5_scav_2994 md5_scav_2995)
  show ?thesis
    using a b JSON_stringify_inj [of o1 o2] generateCacheKey_eq_prefix [of q o1 q o2]
      generateCacheKey_eq_prefix [of q1 o1 q2 o2]
    by blast
qed

theorem generateCacheKey_sensitivity_witness:
  "map description [scav_objective ''Eliminate 2994 Scavs'']
     \<noteq> map description [scav_objective ''Eliminate 2995 Scavs''] \<and>
   JSON_stringify [scav_objective ''Eliminate 2994 Scavs'']
     \<noteq> JSON_stringify [scav_objective ''Eliminate 2995 Scavs''] \<and>
   take 8 (md5_hex (JSON_stringify [scav_objective ''Eliminate 2994 Scavs''])) = ''5c6ec315'' \<and>
   take 8 (md5_hex (JSON_stringify [scav_objective ''Eliminate 2995 Scavs''])) = ''6c6e047d'' \<and>
   generateCacheKey ''q1'' [scav_objective ''Eliminate 2994 Scavs'']
     \<noteq> generateCacheKey ''q1'' [scav_objective ''Eliminate 2995 Scavs'']"
proof -
  have h: "map description [scav_objective ''Eliminate 2994 Scavs'']
     \<noteq> map description [scav_objective ''Eliminate 2995 Scavs'']"
    by (simp add: scav_objective_def)
  have p: "take 8 (md5_hex (JSON_stringify [scav_objective ''Eliminate 2994 Scavs'']))
     \<noteq> take 8 (md5_hex (JSON_stringify [scav_objective ''Eliminate 2995 Scavs'']))"
    by (simp add: md5_scav_2994 md5_scav_2995)
  note t = generateCacheKey_sensitivity [where ?o1.0 = "[scav_objective ''Eliminate 2994 Scavs'']"
      and ?o2.0 = "[scav_objective ''Eliminate 2995 Scavs'']" and q = "''q1''"
      and ?q1.0 = "''q1''" and ?q2.0 = "''q1''"]
  from t h p have "JSON_stringify [scav_objective ''Eliminate 2994 Scavs'']
     \<noteq> JSON_stringify [scav_objective ''Eliminate 2995 Scavs''] \<and>
     generateCacheKey ''q1'' [scav_objective ''Eliminate 2994 Scavs'']
     \<noteq> generateCacheKey ''q1'' [scav_objective ''Eliminate 2995 Scavs'']"
    by blast
  with h show ?thesis by (simp add: md5_scav_2994 md5_scav_2995)
qed

section \<open>Properties of the retry loop of the guide generator\<close>

lemma attempt_loop_cases:
  "attempt_loop m None 0 [] =
     (case m 1 of
        Returns r \<Rightarrow> (Some r, [ModelCall 1])
      | Throws msg \<Rightarrow>
          (case m 2 of
             Returns r \<Rightarrow> (Some r, [ModelCall 1, Delay 1000, ModelCall 2])
           | Throws msg' \<Rightarrow> (None, [ModelCall 1, Delay 1000, ModelCall 2])))"
  by (simp add: attempt_loop.simps [of m None 0] attempt_loop.simps [of m _ "Suc 0"]
        attempt_loop.simps [of m _ "Suc (Suc 0)"] maxAttempts_def numeral_2_eq_2
      split: model_outcome.splits)

lemma generate_trace_cases:
  "snd (snd (generateQuestGuide env cl q)) \<in>
     {[], [ModelCall 1], [ModelCall 1, Delay 1000, ModelCall 2]}"
  by (auto simp: generateQuestGuide_def generate_body_def attempt_loop_cases
      split: model_outcome.splits prod.splits option.splits)

lemma generate_never_throws: "\<exists>r. fst (generateQuestGuide env cl q) = Inr r"
  by (auto simp: generateQuestGuide_def try_catch_def split: prod.splits sum.splits)

lemma generate_calls_le: "model_calls (snd (snd (generateQuestGuide env cl q))) \<le> 2"
  using generate_trace_cases [of env cl q] by (auto simp: model_calls_def)

lemma generate_first_success:
  assumes "cl \<or> initializeGemini env" and "model env 1 = Returns r"
  shows "snd (snd (generateQuestGuide env cl q)) = [ModelCall 1] \<and>
         fst (generateQuestGuide env cl q)
           = Inr (Some (parseLLMResponse (engine env) (case r of None \<Rightarrow> [] | Some t \<Rightarrow> t) q))"
  using assms
  by (auto simp: generateQuestGuide_def generate_body_def attempt_loop_cases try_catch_def)

lemma generate_all_fail:
  assumes "cl \<or> initializeGemini env" and "\<forall>n. \<exists>msg. model env n = Throws msg"
  shows "snd (snd (generateQuestGuide env cl q)) = [ModelCall 1, Delay 1000, ModelCall 2] \<and>
         fst (generateQuestGuide env cl q) = Inr None"
proof -
  from assms(2) obtain m1 m2 where "model env 1 = Throws m1" "model env 2 = Throws m2"
    by blast
  with assms(1) show ?thesis
    by (auto simp: generateQuestGuide_def generate_body_def attempt_loop_cases try_catch_def)
qed

lemma generate_second_success:
  assumes "cl \<or> initializeGemini env" and "model env 1 = Throws msg" and "model env 2 = Returns r"
  shows "snd (snd (generateQuestGuide env cl q)) = [ModelCall 1, Delay 1000, ModelCall 2] \<and>
         fst (generateQuestGuide env cl q)
           = Inr (Some (parseLLMResponse (engine env) (case r of None \<Rightarrow> [] | Some t \<Rightarrow> t) q))"
  using assms
  by (auto simp: generateQuestGuide_def generate_body_def attempt_loop_cases try_catch_def)

lemma generate_no_client:
  assumes "\<not> cl" and "\<not> initializeGemini env"
  shows "generateQuestGuide env cl q = (Inr None, False, [])"
  using assms by (simp add: generateQuestGuide_def)

text \<open>
  Claim C4: for every quest, the guide generator calls the model at most 2 times, and two
  calls are separated by a delay of 1000 milliseconds (the trace is empty, one call, or
  call, delay, call); a first successful attempt ends the loop after one call; when every
  attempt fails the generator returns the failure signal \<open>null\<close>; the generator never
  raises (its result is never an error). With a client at hand (initialised before, or
  initialised by this call), a model that always fails is called exactly 2 times.
\<close>

theorem generateQuestGuide_retry_bound:
  "model_calls (snd (snd (generateQuestGuide env cl q))) \<le> 2 \<and>
   snd (snd (generateQuestGuide env cl q)) \<in>
     {[], [ModelCall 1], [ModelCall 1, Delay 1000, ModelCall 2]} \<and>
   (\<exists>res. fst (generateQuestGuide env cl q) = Inr res) \<and>
   ((cl \<or> initializeGemini env) \<and> model env 1 = Returns r \<longrightarrow>
      snd (snd (generateQuestGuide env cl q)) = [ModelCall 1] \<and>
      fst (generateQuestGuide env cl q)
        = Inr (Some (parseLLMResponse (engine env) (case r of None \<Rightarrow> [] | Some t \<Rightarrow> t) q))) \<and>
   ((\<forall>n. \<exists>msg. model env n = Throws msg) \<longrightarrow>
      fst (generateQuestGuide env cl q) = Inr None) \<and>
   ((cl \<or> initializeGemini env) \<and> (\<forall>n. \<exists>msg. model env n = Throws msg) \<longrightarrow>
      snd (snd (generateQuestGuide env cl q)) = [ModelCall 1, Delay 1000, ModelCall 2] \<and>
      model_calls (snd (snd (generateQuestGuide env cl q))) = 2)"
proof -
  have a: "(\<forall>n. \<exists>msg. model env n = Throws msg) \<longrightarrow>
           fst (generateQuestGuide env cl q) = Inr None"
  proof (cases "cl \<or> initializeGemini env")
    case True
    then show ?thesis using generate_all_fail [of cl env q] by blast
  next
    case False
    then show ?thesis using generate_no_client [of cl env q] by simp
  qed
  have b: "(cl \<or> initializeGemini env) \<and> (\<forall>n. \<exists>msg. model env n = Throws msg) \<longrightarrow>
      snd (snd (generateQuestGuide env cl q)) = [ModelCall 1, Delay 1000, ModelCall 2] \<and>
      model_calls (snd (snd (generateQuestGuide env cl q))) = 2"
    using generate_all_fail [of cl env q] by (auto simp: model_calls_def)
  show ?thesis
    using a b generate_calls_le [of env cl q] generate_trace_cases [of env cl q]
      generate_never_throws [of env cl q] generate_first_success [of cl env r q]
    by blast
qed

theorem generateQuestGuide_retry_bound_witness:
  "initializeGemini failing_env \<and>
   model failing_env 1 = Throws ''503 Service Unavailable'' \<and>
   model failing_env 2 = Throws ''503 Service Unavailable'' \<and>
   snd (snd (generateQuestGuide failing_env False three_quest))
     = [ModelCall 1, Delay 1000, ModelCall 2] \<and>
   model_calls (snd (snd (generateQuestGuide failing_env False three_quest))) = 2 \<and>
   fst (generateQuestGuide failing_env False three_quest) = Inr None \<and>
   initializeGemini answering_env \<and>
   snd (snd (generateQuestGuide answering_env False three_quest)) = [ModelCall 1]"
proof -
  have h1: "initializeGemini failing_env"
    by (simp add: initializeGemini_def failing_env_def)
  have h2: "\<forall>n. \<exists>msg. model failing_env n = Throws msg"
    by (simp add: failing_env_def)
  have h3: "model failing_env 1 = Throws ''503 Service Unavailable'' \<and>
            model failing_env 2 = Throws ''503 Service Unavailable''"
    by (simp add: failing_env_def)
  have h4: "initializeGemini answering_env"
    by (simp add: initializeGemini_def answering_env_def)
  have h5: "model answering_env 1
      = Returns (Some ''Step-by-Step Guide:\<newline>alpha\<newline>\<newline>beta\<newline>\<newline>gamma'')"
    by (simp add: answering_env_def)
  show ?thesis
    using h1 h2 h3 h4 h5
      generateQuestGuide_retry_bound [of failing_env False three_quest]
      generateQuestGuide_retry_bound [of answering_env False three_quest
        "Some ''Step-by-Step Guide:\<newline>alpha\<newline>\<newline>beta\<newline>\<newline>gamma''"]
    by blast
qed

section \<open>Properties of the cache and of the enrichment flow\<close>

lemma set_never_throws: "\<exists>ok c'. setCachedQuestGuide t c qid objs d ttl = Inr (ok, c')"
  by (auto simp: setCachedQuestGuide_def try_catch_def nc_set_def)

lemma set_swallows:
  "nc_set t c (generateCacheKey qid objs) d (effective_ttl ttl) = Inl e \<Longrightarrow>
   setCachedQuestGuide t c qid objs d ttl = Inr (False, c)"
  by (simp add: setCachedQuestGuide_def try_catch_def)

text \<open>
  Claim C9: the cache write never throws to its caller. For every quest identifier,
  objectives and value its result is a success status and a store, never an error; an
  error thrown by the store's \<open>set\<close> is swallowed and reported as \<open>false\<close>, with the
  store unchanged.
\<close>

theorem setCachedQuestGuide_never_throws:
  "(\<exists>ok c'. setCachedQuestGuide t c qid objs d ttl = Inr (ok, c')) \<and>
   (\<forall>e. nc_set t c (generateCacheKey qid objs) d (effective_ttl ttl) = Inl e \<longrightarrow>
      setCachedQuestGuide t c qid objs d ttl = Inr (False, c))"
  using set_never_throws [of t c qid objs d ttl] set_swallows [of t c qid objs d ttl]
  by blast

theorem setCachedQuestGuide_never_throws_witness:
  "nc_set 1000 full_cache (generateCacheKey ''q3'' []) sample_enrichment (effective_ttl None)
     = Inl ECACHEFULL \<and>
   setCachedQuestGuide 1000 full_cache ''q3'' [] sample_enrichment None = Inr (False, full_cache)"
proof -
  have h: "nc_set 1000 full_cache (generateCacheKey ''q3'' []) sample_enrichment
             (effective_ttl None) = Inl ECACHEFULL"
    by (simp add: nc_set_def full_cache_def maxKeys_def)
  then show ?thesis
    using setCachedQuestGuide_never_throws [of 1000 full_cache "''q3''" "[]" sample_enrichment None]
    by blast
qed

lemma nc_get_miss:
  assumes "nc_get t c k = (None, c1)"
  shows "entries c1 k = None \<and> keys c1 \<le> keys c \<and>
         (\<forall>k'. entries c1 k' \<noteq> None \<longrightarrow> entries c k' \<noteq> None)"
  using assms by (auto simp: nc_get_def split: option.splits if_splits)

lemma enrich_fallback:
  assumes "getCachedQuestGuide (w_now w) (questCache st) (quest_id q) (objectives q) = (None, c1)"
    and "fst (generateQuestGuide (w_gemini w) (client_ready st) q) = Inr None"
  shows "fst (enrich w st q) = Regular \<and> questCache (fst (snd (enrich w st q))) = c1"
  using assms by (auto simp: enrich_def Let_def split: prod.splits sum.splits option.splits)

text \<open>
  Claim C2: for every quest, when the cache lookup misses and the guide generator returns
  its failure signal \<open>null\<close>, the enrichment gives the baseline fallback (the regular
  quest view) and writes nothing to the cache: the store afterwards is the store left by
  the lookup, it holds no entry under the quest's fingerprint, and it holds no entry and
  no key that the store did not hold before.
\<close>

theorem enrich_generator_failure_fallback:
  assumes "getCachedQuestGuide (w_now w) (questCache st) (quest_id q) (objectives q) = (None, c1)"
    and "fst (generateQuestGuide (w_gemini w) (client_ready st) q) = Inr None"
  shows "fst (enrich w st q) = Regular \<and>
         questCache (fst (snd (enrich w st q))) = c1 \<and>
         entries (questCache (fst (snd (enrich w st q))))
           (generateCacheKey (quest_id q) (objectives q)) = None \<and>
         keys (questCache (fst (snd (enrich w st q)))) \<le> keys (questCache st) \<and>
         (\<forall>k. entries (questCache (fst (snd (enrich w st q)))) k \<noteq> None \<longrightarrow>
              entries (questCache st) k \<noteq> None)"
proof -
  from assms(1) have "nc_get (w_now w) (questCache st)
      (generateCacheKey (quest_id q) (objectives q)) = (None, c1)"
    by (simp add: getCachedQuestGuide_def)
  from nc_get_miss [OF this] enrich_fallback [OF assms] show ?thesis by simp
qed

lemma enrich_hit:
  assumes "getCachedQuestGuide (w_now w) (questCache st) (quest_id q) (objectives q) = (Some d, c1)"
  shows "enrich w st q = (Enhanced d, st\<lparr> questCache := c1 \<rparr>, [])"
  using assms by (simp add: enrich_def)

lemma count_generate_trace:
  "count_event GenerateGuide (snd (snd (generateQuestGuide env cl q))) = 0 \<and>
   count_event CollectImages (snd (snd (generateQuestGuide env cl q))) = 0"
  using generate_trace_cases [of env cl q] by (auto simp: count_event_def)

lemma enrich_miss_fail:
  assumes "entries (questCache st) (generateCacheKey (quest_id q) (objectives q)) = None"
    and "\<forall>n. \<exists>msg. model (w_gemini w) n = Throws msg"
    and "client_ready st \<or> initializeGemini (w_gemini w)"
  shows "enrich w st q =
      (Regular,
       \<lparr> client_ready = True,
         questCache = (questCache st)\<lparr> misses := misses (questCache st) + 1 \<rparr> \<rparr>,
       [GenerateGuide, ModelCall 1, Delay 1000, ModelCall 2, CollectImages])"
proof -
  from generate_all_fail [OF assms(3) assms(2), of q]
  have "generateQuestGuide (w_gemini w) (client_ready st) q =
      (Inr None, True, [ModelCall 1, Delay 1000, ModelCall 2])"
    using assms(3)
    by (cases "generateQuestGuide (w_gemini w) (client_ready st) q")
       (auto simp: generateQuestGuide_def split: prod.splits)
  with assms(1) show ?thesis
    by (simp add: enrich_def getCachedQuestGuide_def nc_get_def)
qed

theorem enrich_generator_failure_fallback_witness:
  "getCachedQuestGuide (w_now failing_world) (questCache start_state) (quest_id three_quest)
     (objectives three_quest) = (None, empty_cache\<lparr> misses := 1 \<rparr>) \<and>
   fst (generateQuestGuide (w_gemini failing_world) (client_ready start_state) three_quest)
     = Inr None \<and>
   fst (enrich failing_world start_state three_quest) = Regular \<and>
   questCache (fst (snd (enrich failing_world start_state three_quest)))
     = empty_cache\<lparr> misses := 1 \<rparr> \<and>
   entries (questCache (fst (snd (enrich failing_world start_state three_quest))))
     (generateCacheKey (quest_id three_quest) (objectives three_quest)) = None"
proof -
  have h1: "getCachedQuestGuide (w_now failing_world) (questCache start_state)
      (quest_id three_quest) (objectives three_quest) = (None, empty_cache\<lparr> misses := 1 \<rparr>)"
    by (simp add: getCachedQuestGuide_def nc_get_def start_state_def empty_cache_def)
  have "\<forall>n. \<exists>msg. model failing_env n = Throws msg"
    by (simp add: failing_env_def)
  then have h2: "fst (generateQuestGuide (w_gemini failing_world) (client_ready start_state)
      three_quest) = Inr None"
    using generate_all_fail [of False failing_env three_quest]
    by (simp add: failing_world_def start_state_def initializeGemini_def failing_env_def)
  from enrich_generator_failure_fallback [OF h1 h2] h1 h2 show ?thesis by blast
qed

lemma enrich_served:
  assumes miss: "fst (getCachedQuestGuide (w_now w1) (questCache st) (quest_id q) (objectives q)) = None"
    and hit: "fst (getCachedQuestGuide (w_now w2) (questCache (fst (snd (enrich w1 st q))))
                (quest_id q) (objectives q)) = Some d"
  shows "fst (enrich w1 st q) = Enhanced d \<and>
         fst (enrich w2 (fst (snd (enrich w1 st q))) q) = Enhanced d \<and>
         snd (snd (enrich w2 (fst (snd (enrich w1 st q))) q)) = [] \<and>
         count_event GenerateGuide
           (snd (snd (enrich w1 st q)) @ snd (snd (enrich w2 (fst (snd (enrich w1 st q))) q))) = 1 \<and>
         count_event CollectImages
           (snd (snd (enrich w1 st q)) @ snd (snd (enrich w2 (fst (snd (enrich w1 st q))) q))) = 1"
proof -
  define k where "k = generateCacheKey (quest_id q) (objectives q)"
  obtain c1 where g1: "nc_get (w_now w1) (questCache st) k = (None, c1)"
    using miss by (cases "nc_get (w_now w1) (questCache st) k")
      (simp add: getCachedQuestGuide_def k_def)
  from nc_get_miss [OF g1] have n1: "entries c1 k = None" by simp
  then have m2: "fst (nc_get (w_now w2) c1 k) = None" by (simp add: nc_get_def)
  obtain res cl1 trace where g2:
    "generateQuestGuide (w_gemini w1) (client_ready st) q = (res, cl1, trace)"
    by (cases "generateQuestGuide (w_gemini w1) (client_ready st) q") auto
  have "trace = snd (snd (generateQuestGuide (w_gemini w1) (client_ready st) q))"
    using g2 by simp
  then have cnt: "count_event GenerateGuide trace = 0 \<and> count_event CollectImages trace = 0"
    using count_generate_trace by simp
  then have cnt1: "count_event GenerateGuide ([GenerateGuide] @ trace @ [CollectImages]) = 1 \<and>
             count_event CollectImages ([GenerateGuide] @ trace @ [CollectImages]) = 1"
    by (simp add: count_event_def)
  from generate_never_throws [of "w_gemini w1" "client_ready st" q] g2
  obtain r where r: "res = Inr r" by auto
  show ?thesis
  proof (cases r)
    case None
    with g1 g2 r have "questCache (fst (snd (enrich w1 st q))) = c1"
      by (simp add: enrich_def getCachedQuestGuide_def k_def Let_def)
    with hit m2 show ?thesis by (simp add: getCachedQuestGuide_def k_def)
  next
    case (Some g)
    define d1 where "d1 = \<lparr> llmGuide = g, images_of = getQuestImages (w_resolve w1) (w_fetch w1) q \<rparr>"
    show ?thesis
    proof (cases "keys c1 \<ge> maxKeys")
      case True
      then have "setCachedQuestGuide (w_now w1) c1 (quest_id q) (objectives q) d1 None
          = Inr (False, c1)"
        by (simp add: setCachedQuestGuide_def try_catch_def nc_set_def)
      with g1 g2 r Some have "questCache (fst (snd (enrich w1 st q))) = c1"
        by (simp add: enrich_def getCachedQuestGuide_def k_def Let_def d1_def)
      with hit m2 show ?thesis by (simp add: getCachedQuestGuide_def k_def)
    next
      case False
      define c2 where "c2 = c1\<lparr> entries := (entries c1)(k \<mapsto> \<lparr> entry_value = d1,
          expires = w_now w1 + defaultTTL * 1000 \<rparr>),
          keys := (if entries c1 k = None then keys c1 + 1 else keys c1) \<rparr>"
      have s1: "setCachedQuestGuide (w_now w1) c1 (quest_id q) (objectives q) d1 None
          = Inr (True, c2)"
        using False
        by (simp add: setCachedQuestGuide_def try_catch_def nc_set_def effective_ttl_def
            c2_def k_def)
      have e1: "enrich w1 st q =
          (Enhanced d1, \<lparr> client_ready = cl1, questCache = c2 \<rparr>,
           [GenerateGuide] @ trace @ [CollectImages])"
        using g1 g2 r Some s1
        by (simp add: enrich_def getCachedQuestGuide_def k_def d1_def Let_def)
      from hit e1 have h2: "fst (nc_get (w_now w2) c2 k) = Some d"
        by (simp add: getCachedQuestGuide_def k_def)
      then have dd: "d = d1"
        by (auto simp: nc_get_def c2_def split: if_splits)
      from h2 obtain c3 where "nc_get (w_now w2) c2 k = (Some d, c3)"
        by (cases "nc_get (w_now w2) c2 k") auto
      then have e2: "enrich w2 \<lparr> client_ready = cl1, questCache = c2 \<rparr> q =
          (Enhanced d, \<lparr> client_ready = cl1, questCache = c3 \<rparr>, [])"
        by (simp add: enrich_def getCachedQuestGuide_def k_def)
      from e1 e2 dd cnt1 show ?thesis by simp
    qed
  qed
qed

lemma enrich_present:
  assumes miss: "fst (getCachedQuestGuide (w_now w1) (questCache st) (quest_id q) (objectives q)) = None"
    and gen: "fst (generateQuestGuide (w_gemini w1) (client_ready st) q) = Inr (Some g)"
    and room: "keys (questCache st) < maxKeys"
    and fresh: "w_now w2 \<le> w_now w1 + defaultTTL * 1000"
  shows "fst (getCachedQuestGuide (w_now w2) (questCache (fst (snd (enrich w1 st q))))
                (quest_id q) (objectives q))
         = Some \<lparr> llmGuide = g, images_of = getQuestImages (w_resolve w1) (w_fetch w1) q \<rparr>"
proof -
  define k where "k = generateCacheKey (quest_id q) (objectives q)"
  define d where "d = \<lparr> llmGuide = g, images_of = getQuestImages (w_resolve w1) (w_fetch w1) q \<rparr>"
  obtain c1 where g1: "nc_get (w_now w1) (questCache st) k = (None, c1)"
    using miss by (cases "nc_get (w_now w1) (questCache st) k")
      (simp add: getCachedQuestGuide_def k_def)
  from nc_get_miss [OF g1] room have room1: "keys c1 < maxKeys" by simp
  obtain cl1 trace where g2:
    "generateQuestGuide (w_gemini w1) (client_ready st) q = (Inr (Some g), cl1, trace)"
    using gen by (cases "generateQuestGuide (w_gemini w1) (client_ready st) q") auto
  define c2 where "c2 = c1\<lparr> entries := (entries c1)(k \<mapsto> \<lparr> entry_value = d,
      expires = w_now w1 + defaultTTL * 1000 \<rparr>),
      keys := (if entries c1 k = None then keys c1 + 1 else keys c1) \<rparr>"
  have s1: "setCachedQuestGuide (w_now w1) c1 (quest_id q) (objectives q) d None = Inr (True, c2)"
    using room1
    by (simp add: setCachedQuestGuide_def try_catch_def nc_set_def effective_ttl_def c2_def k_def)
  have e1: "questCache (fst (snd (enrich w1 st q))) = c2"
    using g1 g2 s1 by (simp add: enrich_def getCachedQuestGuide_def k_def d_def Let_def)
  have "fst (nc_get (w_now w2) c2 k) = Some d"
    using fresh by (simp add: nc_get_def c2_def)
  with e1 show ?thesis by (simp add: getCachedQuestGuide_def k_def d_def)
qed

text \<open>
  Claim C1: for every quest whose fingerprint is present in the content cache (the lookup
  returns the cached data), the enrichment flow returns the cached result unchanged and
  performs no generation work: its trace is empty. For two calls of the enrichment with an
  unmodified quest, the second starting after the first has finished, where the first
  lookup misses and the second finds the fingerprint present, the guide generator and the
  image collector are invoked exactly once: the first call generated and cached the
  result, the second returns it from the cache with an empty trace. The fingerprint is
  present at the second call whenever the first call's generation succeeds, the store is
  not full and the entry has not expired.
\<close>

theorem enrich_cache_hit:
  "(getCachedQuestGuide (w_now w) (questCache st) (quest_id q) (objectives q) = (Some d, c1) \<longrightarrow>
      enrich w st q = (Enhanced d, st\<lparr> questCache := c1 \<rparr>, [])) \<and>
   (fst (getCachedQuestGuide (w_now w1) (questCache st) (quest_id q) (objectives q)) = None \<and>
    fst (getCachedQuestGuide (w_now w2) (questCache (fst (snd (enrich w1 st q))))
          (quest_id q) (objectives q)) = Some d \<longrightarrow>
      fst (enrich w1 st q) = Enhanced d \<and>
      fst (enrich w2 (fst (snd (enrich w1 st q))) q) = Enhanced d \<and>
      snd (snd (enrich w2 (fst (snd (enrich w1 st q))) q)) = [] \<and>
      count_event GenerateGuide
        (snd (snd (enrich w1 st q)) @ snd (snd (enrich w2 (fst (snd (enrich w1 st q))) q))) = 1 \<and>
      count_event CollectImages
        (snd (snd (enrich w1 st q)) @ snd (snd (enrich w2 (fst (snd (enrich w1 st q))) q))) = 1) \<and>
   (fst (getCachedQuestGuide (w_now w1) (questCache st) (quest_id q) (objectives q)) = None \<and>
    fst (generateQuestGuide (w_gemini w1) (client_ready st) q) = Inr (Some g) \<and>
    keys (questCache st) < maxKeys \<and> w_now w2 \<le> w_now w1 + defaultTTL * 1000 \<longrightarrow>
      fst (getCachedQuestGuide (w_now w2) (questCache (fst (snd (enrich w1 st q))))
            (quest_id q) (objectives q))
        = Some \<lparr> llmGuide = g, images_of = getQuestImages (w_resolve w1) (w_fetch w1) q \<rparr>)"
  using enrich_hit [of w st q d c1] enrich_served [of w1 st q w2 d]
    enrich_present [of w1 st q g w2]
  by blast

theorem enrich_cache_hit_witness:
  "fst (getCachedQuestGuide (w_now answering_world) (questCache start_state)
          (quest_id three_quest) (objectives three_quest)) = None \<and>
   fst (generateQuestGuide (w_gemini answering_world) (client_ready start_state) three_quest)
     = Inr (Some (parseLLMResponse no_engine three_chunks three_quest)) \<and>
   keys (questCache start_state) < maxKeys \<and>
   w_now (answering_world\<lparr> w_now := 2000 \<rparr>) \<le> w_now answering_world + defaultTTL * 1000 \<and>
   fst (getCachedQuestGuide (w_now (answering_world\<lparr> w_now := 2000 \<rparr>))
          (questCache (fst (snd (enrich answering_world start_state three_quest))))
          (quest_id three_quest) (objectives three_quest))
     = Some \<lparr> llmGuide = parseLLMResponse no_engine three_chunks three_quest,
              images_of = getQuestImages (w_resolve answering_world) (w_fetch answering_world)
                            three_quest \<rparr> \<and>
   snd (snd (enrich (answering_world\<lparr> w_now := 2000 \<rparr>)
                (fst (snd (enrich answering_world start_state three_quest))) three_quest)) = [] \<and>
   fst (enrich (answering_world\<lparr> w_now := 2000 \<rparr>)
          (fst (snd (enrich answering_world start_state three_quest))) three_quest)
     = fst (enrich answering_world start_state three_quest) \<and>
   count_event GenerateGuide
     (snd (snd (enrich answering_world start_state three_quest)) @
      snd (snd (enrich (answering_world\<lparr> w_now := 2000 \<rparr>)
                  (fst (snd (enrich answering_world start_state three_quest))) three_quest))) = 1 \<and>
   count_event CollectImages
     (snd (snd (enrich answering_world start_state three_quest)) @
      snd (snd (enrich (answering_world\<lparr> w_now := 2000 \<rparr>)
                  (fst (snd (enrich answering_world start_state three_quest))) three_quest))) = 1"
proof -
  have h1: "fst (getCachedQuestGuide (w_now answering_world) (questCache start_state)
          (quest_id three_quest) (objectives three_quest)) = None"
    by (simp add: getCachedQuestGuide_def nc_get_def start_state_def empty_cache_def)
  have h2: "fst (generateQuestGuide (w_gemini answering_world) (client_ready start_state)
      three_quest)
     = Inr (Some (parseLLMResponse no_engine three_chunks three_quest))"
    using generate_first_success [of False answering_env "Some three_chunks" three_quest]
    by (simp add: answering_world_def start_state_def initializeGemini_def answering_env_def
        three_chunks_def)
  have h3: "keys (questCache start_state) < maxKeys"
    by (simp add: start_state_def empty_cache_def maxKeys_def)
  have h4: "w_now (answering_world\<lparr> w_now := 2000 \<rparr>)
      \<le> w_now answering_world + defaultTTL * 1000"
    by (simp add: answering_world_def defaultTTL_def)
  note t = enrich_cache_hit [where ?w1.0 = answering_world and st = start_state
      and q = three_quest and ?w2.0 = "answering_world\<lparr> w_now := 2000 \<rparr>"
      and g = "parseLLMResponse no_engine three_chunks three_quest"
      and d = "\<lparr> llmGuide = parseLLMResponse no_engine three_chunks three_quest,
              images_of = getQuestImages (w_resolve answering_world) (w_fetch answering_world)
                            three_quest \<rparr>"]
  note t2 = t [THEN conjunct2, THEN conjunct1]
  note t3 = t [THEN conjunct2, THEN conjunct2]
  from t3 h1 h2 h3 h4 have h5:
    "fst (getCachedQuestGuide (w_now (answering_world\<lparr> w_now := 2000 \<rparr>))
          (questCache (fst (snd (enrich answering_world start_state three_quest))))
          (quest_id three_quest) (objectives three_quest))
     = Some \<lparr> llmGuide = parseLLMResponse no_engine three_chunks three_quest,
              images_of = getQuestImages (w_resolve answering_world) (w_fetch answering_world)
                            three_quest \<rparr>"
    by blast
  note c0 = mp [OF t2 conjI [OF h1 h5]]
  have c:
    "fst (enrich (answering_world\<lparr> w_now := 2000 \<rparr>)
          (fst (snd (enrich answering_world start_state three_quest))) three_quest)
     = fst (enrich answering_world start_state three_quest) \<and>
     snd (snd (enrich (answering_world\<lparr> w_now := 2000 \<rparr>)
                (fst (snd (enrich answering_world start_state three_quest))) three_quest)) = [] \<and>
     count_event GenerateGuide
       (snd (snd (enrich answering_world start_state three_quest)) @
        snd (snd (enrich (answering_world\<lparr> w_now := 2000 \<rparr>)
                  (fst (snd (enrich answering_world start_state three_quest))) three_quest))) = 1 \<and>
     count_event CollectImages
       (snd (snd (enrich answering_world start_state three_quest)) @
        snd (snd (enrich (answering_world\<lparr> w_now := 2000 \<rparr>)
                  (fst (snd (enrich answering_world start_state three_quest))) three_quest))) = 1"
    using c0 by auto
  from h1 h2 h3 h4 h5 c show ?thesis by blast
qed

section \<open>Properties of the response segmentation\<close>

lemma length_objective_slots:
  "objective_slots eng text idx objs = Inr ss \<Longrightarrow> length ss = length objs"
  by (induction objs arbitrary: idx ss) (auto split: sum.splits)

lemma objective_slots_nth:
  "objective_slots eng text idx objs = Inr ss \<Longrightarrow> i < length objs \<Longrightarrow>
   objective_slot eng text (idx + i) (objs ! i) = Inr (ss ! i)"
proof (induction objs arbitrary: idx ss i)
  case Nil
  then show ?case by simp
next
  case (Cons obj objs)
  from Cons.prems(1) obtain s rest where
    s: "objective_slot eng text idx obj = Inr s" and
    r: "objective_slots eng text (idx + 1) objs = Inr rest" and
    ss: "ss = s # rest"
    by (auto split: sum.splits)
  show ?case
  proof (cases i)
    case 0
    with s ss show ?thesis by simp
  next
    case (Suc j)
    with Cons.prems(2) have "j < length objs" by simp
    from Cons.IH [OF r this] Suc ss show ?thesis by simp
  qed
qed

lemma objective_slot_unresolved:
  assumes "description_pattern eng obj = Inr dp"
    and "regex_search (objective_pattern_at (idx + 1)) text = None"
    and "rx_match_text eng dp text = None"
  shows "objective_slot eng text idx obj = Inr []"
  using assms by (simp add: objective_slot_def)

lemma parse_length:
  "length (guide_objectives (parseLLMResponse eng text q)) = length (objectives q)"
  by (auto simp: parseLLMResponse_def Let_def length_objective_slots
      split: sum.splits option.splits)

lemma parse_raw: "raw (parseLLMResponse eng text q) = text"
  by (auto simp: parseLLMResponse_def Let_def split: sum.splits option.splits)

lemma parse_throws:
  "objective_slots eng text 0 (objectives q) = Inl e \<Longrightarrow>
   guide_objectives (parseLLMResponse eng text q) = replicate (length (objectives q)) text"
  by (simp add: parseLLMResponse_def Let_def map_replicate_const)

lemma parse_slots:
  assumes "objective_slots eng text 0 (objectives q) = Inr ss"
    and "\<not> list_all (\<lambda>s. s = []) ss \<or> guideSectionMatch text = None"
  shows "guide_objectives (parseLLMResponse eng text q) = ss"
  using assms by (auto simp: parseLLMResponse_def Let_def split: option.splits)

lemma parse_fallback:
  assumes "objective_slots eng text 0 (objectives q) = Inr ss"
    and "list_all (\<lambda>s. s = []) ss" and "guideSectionMatch text = Some c"
  shows "guide_objectives (parseLLMResponse eng text q) =
         map (part_or_guide (split_guide (trim c)) (trim c)) [0..<length (objectives q)]"
  using assms by (simp add: parseLLMResponse_def Let_def)

lemma parse_fallback_nth:
  assumes "objective_slots eng text 0 (objectives q) = Inr ss"
    and "list_all (\<lambda>s. s = []) ss" and "guideSectionMatch text = Some c"
    and "i < length (objectives q)"
  shows "guide_objectives (parseLLMResponse eng text q) ! i =
         (if i < length (split_guide (trim c)) \<and> split_guide (trim c) ! i \<noteq> []
          then split_guide (trim c) ! i else trim c)"
  using parse_fallback [OF assms(1,2,3)] assms(4) by (simp add: part_or_guide_def)

lemma parse_unresolved_slot:
  assumes "objective_slots eng text 0 (objectives q) = Inr ss"
    and "\<not> list_all (\<lambda>s. s = []) ss \<or> guideSectionMatch text = None"
    and "i < length (objectives q)"
    and "description_pattern eng (objectives q ! i) = Inr dp"
    and "regex_search (objective_pattern_at (i + 1)) text = None"
    and "rx_match_text eng dp text = None"
  shows "guide_objectives (parseLLMResponse eng text q) ! i = []"
proof -
  from objective_slots_nth [OF assms(1,3)] objective_slot_unresolved [OF assms(4,5,6)]
  have "ss ! i = []" by simp
  with parse_slots [OF assms(1,2)] show ?thesis by simp
qed

lemma description_pattern_error:
  "description_pattern eng obj = Inl e \<Longrightarrow> e = SyntaxError"
  by (auto simp: description_pattern_def Let_def split: if_splits)

lemma objective_slot_throw_iff:
  "objective_slot eng tx idx obj = Inl e \<longleftrightarrow> description_pattern eng obj = Inl e"
  by (auto simp: objective_slot_def split: sum.splits)

lemma objective_slots_throw_iff:
  "objective_slots eng tx idx objs = Inl e \<longleftrightarrow>
   (\<exists>obj \<in> set objs. description_pattern eng obj = Inl e)"
proof (induction objs arbitrary: idx)
  case Nil
  then show ?case by simp
next
  case (Cons obj objs)
  show ?case
  proof (cases "objective_slot eng tx idx obj")
    case (Inl e')
    then have "description_pattern eng obj = Inl e'"
      by (simp add: objective_slot_throw_iff)
    moreover from this have "e' = SyntaxError" by (rule description_pattern_error)
    moreover have "\<And>o'. description_pattern eng o' = Inl e \<Longrightarrow> e = SyntaxError"
      by (rule description_pattern_error)
    ultimately show ?thesis using Inl by auto
  next
    case (Inr sl)
    then have "description_pattern eng obj \<noteq> Inl e"
      using objective_slot_throw_iff [of eng tx idx obj e] by simp
    with Inr Cons.IH [of "idx + 1"] show ?thesis by (auto split: sum.splits)
  qed
qed

text \<open>
  Claim C7 as stated fails in its last part: with fewer chunks than objectives, a
  remaining slot gets the whole text of the guide block (\<open>parts[idx] || guideText\<close>),
  which is neither the final chunk nor empty. For three objectives and the two chunks
  "alpha" and "beta", the third slot is the whole block.
\<close>

theorem parseLLMResponse_fewer_chunks_counterexample:
  "objective_slots no_engine two_chunks 0 (objectives three_quest) = Inr [[], [], []] \<and>
   split_guide ''alpha\<newline>\<newline>beta'' = [''alpha'', ''beta''] \<and>
   guide_objectives (parseLLMResponse no_engine two_chunks three_quest)
     = [''alpha'', ''beta'', ''alpha\<newline>\<newline>beta''] \<and>
   guide_objectives (parseLLMResponse no_engine two_chunks three_quest) ! 2 \<noteq> ''beta'' \<and>
   guide_objectives (parseLLMResponse no_engine two_chunks three_quest) ! 2 \<noteq> []"
proof -
  have s: "objective_slots no_engine two_chunks 0 (objectives three_quest) = Inr [[], [], []]"
    by code_simp
  have g: "guideSectionMatch two_chunks = Some ''alpha\<newline>\<newline>beta''"
    by code_simp
  have t: "trim ''alpha\<newline>\<newline>beta'' = ''alpha\<newline>\<newline>beta''"
    by code_simp
  have p: "split_guide ''alpha\<newline>\<newline>beta'' = [''alpha'', ''beta'']"
    by code_simp
  have n: "[0..<length (objectives three_quest)] = [0, 1, 2]"
    by code_simp
  have "guide_objectives (parseLLMResponse no_engine two_chunks three_quest)
     = [''alpha'', ''beta'', ''alpha\<newline>\<newline>beta'']"
    using parse_fallback [OF s _ g] by (simp add: t p n part_or_guide_def)
  with s p show ?thesis by simp
qed

text \<open>
  Claim C7, amended: in response segmentation, if every per-objective slot is empty after
  heading-anchored and description-anchored matching and the step-by-step guide block is
  found, the block is split on blank-line or numbered-item boundaries and the i-th chunk
  is assigned to the i-th objective slot; when three blank-line-separated chunks exist for
  three objectives each chunk is assigned index-aligned; a slot without a chunk of its own
  (fewer chunks than objectives, or an empty chunk) gets the whole text of the guide
  block. When the guide block is not found, every slot stays empty.
\<close>

theorem parseLLMResponse_positional_fallback:
  "(objective_slots eng text 0 (objectives q) = Inr ss \<and> list_all (\<lambda>s. s = []) ss \<and>
    guideSectionMatch text = Some c \<and> i < length (objectives q) \<longrightarrow>
      guide_objectives (parseLLMResponse eng text q) ! i =
        (if i < length (split_guide (trim c)) \<and> split_guide (trim c) ! i \<noteq> []
         then split_guide (trim c) ! i else trim c)) \<and>
   (objective_slots eng text 0 (objectives q) = Inr ss \<and> list_all (\<lambda>s. s = []) ss \<and>
    guideSectionMatch text = None \<longrightarrow>
      guide_objectives (parseLLMResponse eng text q) = ss)"
  using parse_fallback_nth [of eng "text" q ss c i] parse_slots [of eng "text" q ss]
  by blast

theorem parseLLMResponse_positional_fallback_witness:
  "objective_slots no_engine three_chunks 0 (objectives three_quest) = Inr [[], [], []] \<and>
   guideSectionMatch three_chunks = Some ''alpha\<newline>\<newline>beta\<newline>\<newline>gamma'' \<and>
   split_guide (trim ''alpha\<newline>\<newline>beta\<newline>\<newline>gamma'') = [''alpha'', ''beta'', ''gamma''] \<and>
   guide_objectives (parseLLMResponse no_engine three_chunks three_quest) ! 0 = ''alpha'' \<and>
   guide_objectives (parseLLMResponse no_engine three_chunks three_quest) ! 1 = ''beta'' \<and>
   guide_objectives (parseLLMResponse no_engine three_chunks three_quest) ! 2 = ''gamma''"
proof -
  have s: "objective_slots no_engine three_chunks 0 (objectives three_quest) = Inr [[], [], []]"
    by code_simp
  have g: "guideSectionMatch three_chunks = Some ''alpha\<newline>\<newline>beta\<newline>\<newline>gamma''"
    by code_simp
  have p: "split_guide (trim ''alpha\<newline>\<newline>beta\<newline>\<newline>gamma'') = [''alpha'', ''beta'', ''gamma'']"
    by code_simp
  have l: "length (objectives three_quest) = 3"
    by (simp add: three_quest_def)
  have e: "list_all (\<lambda>s. s = []) [[], [], [] :: string]" by simp
  have "guide_objectives (parseLLMResponse no_engine three_chunks three_quest) ! 0 = ''alpha''"
    using parseLLMResponse_positional_fallback [of no_engine three_chunks three_quest
        "[[], [], []]" "''alpha\<newline>\<newline>beta\<newline>\<newline>gamma''" 0] s g e l
    by (simp add: p)
  moreover
  have "guide_objectives (parseLLMResponse no_engine three_chunks three_quest) ! 1 = ''beta''"
    using parseLLMResponse_positional_fallback [of no_engine three_chunks three_quest
        "[[], [], []]" "''alpha\<newline>\<newline>beta\<newline>\<newline>gamma''" 1] s g e l
    by (simp add: p)
  moreover
  have "guide_objectives (parseLLMResponse no_engine three_chunks three_quest) ! 2 = ''gamma''"
    using parseLLMResponse_positional_fallback [of no_engine three_chunks three_quest
        "[[], [], []]" "''alpha\<newline>\<newline>beta\<newline>\<newline>gamma''" 2] s g e l
    by (simp add: p)
  ultimately show ?thesis using s g p by simp
qed

text \<open>
  Claim C8: for every response text and quest, the parsed guide has exactly one text slot
  per quest objective and its raw field is the full response text, whatever the outcome
  of the segmentation. When the segmentation throws (the pattern built from an objective's
  description is rejected), every slot holds the full response text. A slot that no
  strategy resolves (neither pattern matches, and the positional split does not apply)
  is the empty string.
\<close>

theorem parseLLMResponse_slots_and_raw:
  "length (guide_objectives (parseLLMResponse eng text q)) = length (objectives q) \<and>
   raw (parseLLMResponse eng text q) = text \<and>
   ((\<exists>obj \<in> set (objectives q). \<exists>e. description_pattern eng obj = Inl e) \<longrightarrow>
      guide_objectives (parseLLMResponse eng text q) = replicate (length (objectives q)) text) \<and>
   (objective_slots eng text 0 (objectives q) = Inr ss \<and>
    (\<not> list_all (\<lambda>s. s = []) ss \<or> guideSectionMatch text = None) \<and>
    i < length (objectives q) \<and> description_pattern eng (objectives q ! i) = Inr dp \<and>
    regex_search (objective_pattern_at (i + 1)) text = None \<and>
    rx_match_text eng dp text = None \<longrightarrow>
      guide_objectives (parseLLMResponse eng text q) ! i = [])"
proof -
  have "(\<exists>obj \<in> set (objectives q). \<exists>e. description_pattern eng obj = Inl e) \<longrightarrow>
      guide_objectives (parseLLMResponse eng text q) = replicate (length (objectives q)) text"
    using objective_slots_throw_iff [of eng "text" 0 "objectives q"] parse_throws [of eng "text" q]
    by blast
  then show ?thesis
    using parse_length [of eng "text" q] parse_raw [of eng "text" q]
      parse_unresolved_slot [of eng "text" q ss i dp]
    by blast
qed

theorem parseLLMResponse_slots_and_raw_witness:
  "description_pattern no_engine (plain_objective ''Hand over the item (found'') = Inl SyntaxError \<and>
   guide_objectives (parseLLMResponse no_engine ''hello'' paren_quest) = [''hello''] \<and>
   raw (parseLLMResponse no_engine ''hello'' paren_quest) = ''hello'' \<and>
   objective_slots no_engine marked_response 0 (objectives three_quest)
     = Inr ['': go there'', '': mark it'', []] \<and>
   regex_search (objective_pattern_at (2 + 1)) marked_response = None \<and>
   rx_match_text no_engine (Literal ''Survive and extract'') marked_response = None \<and>
   length (guide_objectives (parseLLMResponse no_engine marked_response three_quest)) = 3 \<and>
   guide_objectives (parseLLMResponse no_engine marked_response three_quest) ! 2 = []"
proof -
  have h1: "description_pattern no_engine (plain_objective ''Hand over the item (found'')
      = Inl SyntaxError"
    by code_simp
  have o1: "objectives paren_quest = [plain_objective ''Hand over the item (found'']"
    by (simp add: paren_quest_def)
  have h2: "objective_slots no_engine marked_response 0 (objectives three_quest)
     = Inr ['': go there'', '': mark it'', []]"
    by code_simp
  have h3: "regex_search (objective_pattern_at (2 + 1)) marked_response = None"
    by code_simp
  have h4: "rx_match_text no_engine (Literal ''Survive and extract'') marked_response = None"
    by code_simp
  have h5: "description_pattern no_engine (objectives three_quest ! 2)
      = Inr (Literal ''Survive and extract'')"
    by code_simp
  have l: "length (objectives three_quest) = 3"
    by (simp add: three_quest_def)
  have a: "guide_objectives (parseLLMResponse no_engine ''hello'' paren_quest) = [''hello''] \<and>
           raw (parseLLMResponse no_engine ''hello'' paren_quest) = ''hello''"
    using parseLLMResponse_slots_and_raw [of no_engine "''hello''" paren_quest] h1 o1
    by simp
  have b: "length (guide_objectives (parseLLMResponse no_engine marked_response three_quest)) = 3 \<and>
           guide_objectives (parseLLMResponse no_engine marked_response three_quest) ! 2 = []"
    using parseLLMResponse_slots_and_raw [of no_engine marked_response three_quest
        "['': go there'', '': mark it'', []]" 2 "Literal ''Survive and extract''"]
      h2 h3 h4 h5 l
    by simp
  from h1 h2 h3 h4 a b show ?thesis by simp
qed

end
